theory Spec2Isabelle
  imports Main "HOL-Library.Char_ord" "HOL-Library.List_Lexorder"
begin

section \<open>Strings\<close>

text \<open>
  The program of \<^verbatim>\<open>console.py\<close> works on Python \<^verbatim>\<open>str\<close> values. A \<^typ>\<open>char\<close> stands
  for the code point of the same number, so a \<^typ>\<open>string\<close> is a Python string over the
  first 256 code points; text with later code points is outside this development. The
  order on strings is the lexicographic order of the code points, which is how Python
  compares strings.
\<close>

definition isspace :: "char \<Rightarrow> bool" where
  \<comment> \<open>the white space of \<^verbatim>\<open>str.strip()\<close> and \<^verbatim>\<open>str.split()\<close>: TAB..CR, FS..US, space, NEL, NBSP\<close>
  "isspace c =
     (let n = (of_char c :: nat)
      in (9 \<le> n \<and> n \<le> 13) \<or> (28 \<le> n \<and> n \<le> 31) \<or> n = 32 \<or> n = 133 \<or> n = 160)"

definition isdecimal :: "char \<Rightarrow> bool" where
  \<comment> \<open>the characters \<^verbatim>\<open>0\<close>..\<^verbatim>\<open>9\<close>\<close>
  "isdecimal c = (let n = (of_char c :: nat) in 48 \<le> n \<and> n \<le> 57)"

definition isdigit_char :: "char \<Rightarrow> bool" where
  \<comment> \<open>the digits of \<^verbatim>\<open>str.isdigit()\<close>: the decimal ones and the superscripts two, three, one\<close>
  "isdigit_char c =
     (let n = (of_char c :: nat) in isdecimal c \<or> n = 178 \<or> n = 179 \<or> n = 185)"

definition isdigit :: "string \<Rightarrow> bool" where
  \<comment> \<open>\<^verbatim>\<open>str.isdigit()\<close>: false on the empty string\<close>
  "isdigit s = (s \<noteq> [] \<and> list_all isdigit_char s)"

definition strip :: "string \<Rightarrow> string" where
  \<comment> \<open>\<^verbatim>\<open>str.strip()\<close>\<close>
  "strip s = rev (dropWhile isspace (rev (dropWhile isspace s)))"

definition startswith :: "string \<Rightarrow> string \<Rightarrow> bool" where
  \<comment> \<open>\<^verbatim>\<open>s.startswith(p)\<close>\<close>
  "startswith s p = (take (length p) s = p)"

fun split_from :: "string \<Rightarrow> string \<Rightarrow> string list" where
  \<comment> \<open>the scan of \<^verbatim>\<open>str.split()\<close>; the first argument is the word being read\<close>
  "split_from w [] = (if w = [] then [] else [w])"
| "split_from w (c # cs) =
     (if isspace c then (if w = [] then split_from [] cs else w # split_from [] cs)
      else split_from (w @ [c]) cs)"

definition split :: "string \<Rightarrow> string list" where
  \<comment> \<open>\<^verbatim>\<open>str.split()\<close> with no argument: the maximal runs of non-space characters\<close>
  "split s = split_from [] s"

definition join :: "string \<Rightarrow> string list \<Rightarrow> string" where
  \<comment> \<open>\<^verbatim>\<open>sep.join(xs)\<close>\<close>
  "join sep xs = (case xs of [] \<Rightarrow> [] | y # ys \<Rightarrow> y @ concat (map (\<lambda>z. sep @ z) ys))"

subsection \<open>Integers as text\<close>

definition digit_char :: "nat \<Rightarrow> char" where
  "digit_char d = char_of (48 + d)"

function str_nat :: "nat \<Rightarrow> string" where
  "str_nat n = (if n < 10 then [digit_char n] else str_nat (n div 10) @ [digit_char (n mod 10)])"
  by pat_completeness auto
termination
  by (relation "measure id") auto

declare str_nat.simps [simp del]

definition decimal :: "int \<Rightarrow> string" where
  \<comment> \<open>the decimal text of an integer, with \<^verbatim>\<open>-\<close> before the digits of a negative one\<close>
  "decimal i = (if i < 0 then CHR ''-'' # str_nat (nat (- i)) else str_nat (nat i))"

definition signed_decimal :: "int \<Rightarrow> string" where
  \<comment> \<open>the sign, \<^verbatim>\<open>+\<close> or \<^verbatim>\<open>-\<close>, then the digits of the absolute value\<close>
  "signed_decimal d = (if d < 0 then CHR ''-'' else CHR ''+'') # str_nat (nat \<bar>d\<bar>)"

subsection \<open>Exceptions\<close>

datatype exn =
    HTTPError         \<comment> \<open>\<^verbatim>\<open>requests.HTTPError\<close>, raised by \<^verbatim>\<open>raise_for_status\<close>\<close>
  | ConnectionError   \<comment> \<open>a failure of the transport: any other exception of \<^verbatim>\<open>requests.get\<close>\<close>
  | ValueError
  | IndexError

subsection \<open>The limit on the digits of an integer\<close>

text \<open>
  The interpreter converts between \<^verbatim>\<open>int\<close> and \<^verbatim>\<open>str\<close> only up to 4300 decimal digits
  (\<^verbatim>\<open>sys.int_info.default_max_str_digits\<close>), the sign not counted and leading zeros
  counted: beyond that, \<^verbatim>\<open>int(s)\<close>, \<^verbatim>\<open>str(i)\<close> and the formatting of an integer in an
  f-string raise ValueError.
\<close>

definition max_str_digits :: nat where
  "max_str_digits = 4300"

definition str_int :: "int \<Rightarrow> exn + string" where
  \<comment> \<open>\<^verbatim>\<open>str(i)\<close>, also what \<^verbatim>\<open>print(i)\<close> and \<^verbatim>\<open>f"{i}"\<close> write\<close>
  "str_int i =
     (if length (str_nat (nat \<bar>i\<bar>)) > max_str_digits then Inl ValueError else Inr (decimal i))"

definition format_plus :: "int \<Rightarrow> exn + string" where
  \<comment> \<open>\<^verbatim>\<open>f"{d:+d}"\<close>\<close>
  "format_plus d =
     (if length (str_nat (nat \<bar>d\<bar>)) > max_str_digits then Inl ValueError
      else Inr (signed_decimal d))"

definition int_of_digits :: "string \<Rightarrow> int" where
  "int_of_digits s = foldl (\<lambda>a c. 10 * a + (int (of_char c) - 48)) 0 s"

definition py_int :: "string \<Rightarrow> exn + int" where
  \<comment> \<open>\<^verbatim>\<open>int(s)\<close> on a string for which \<^verbatim>\<open>isdigit\<close> holds, the only strings the program
      converts: the decimal value of at most 4300 decimal digits, and ValueError where a
      superscript digit occurs or the digits are more than 4300\<close>
  "py_int s =
     (if s \<noteq> [] \<and> list_all isdecimal s \<and> length s \<le> max_str_digits
      then Inr (int_of_digits s) else Inl ValueError)"

section \<open>Data\<close>

text \<open>
  The records decoded from the service. A key read with \<^verbatim>\<open>.get(key, default)\<close> may be
  absent; one read with \<^verbatim>\<open>[key]\<close> is a field.
\<close>

record team =
  t_id :: int
  t_name :: string
  t_players :: "int list option"

record player =
  p_name :: "string option"
  p_surname :: "string option"

record match =
  team1 :: int
  team2 :: int
  team1_score :: int
  team2_score :: int

section \<open>Match statistics\<close>

fun stats_loop :: "match list \<Rightarrow> int \<Rightarrow> int \<times> int \<times> int \<times> int \<Rightarrow> int \<times> int \<times> int \<times> int" where
  "stats_loop [] team_id acc = acc"
| "stats_loop (m # ms) team_id (wins, losses, goals_for, goals_against) =
     (let t1 = team1 m; t2 = team2 m; s1 = team1_score m; s2 = team2_score m
      in if t1 = team_id \<or> t2 = team_id then
           (let (gf, ga) = (if t1 = team_id then (s1, s2) else (s2, s1))
            in stats_loop ms team_id
                 (if gf > ga then wins + 1 else wins,
                  if gf > ga then losses else if gf < ga then losses + 1 else losses,
                  goals_for + gf, goals_against + ga))
         else stats_loop ms team_id (wins, losses, goals_for, goals_against))"

definition compute_stats :: "match list \<Rightarrow> int \<Rightarrow> int \<times> int \<times> int" where
  "compute_stats matches team_id =
     (let (wins, losses, goals_for, goals_against) = stats_loop matches team_id (0, 0, 0, 0);
          diff = goals_for - goals_against
      in (wins, losses, diff))"

text \<open>The counting loop of the \<^verbatim>\<open>versus?\<close> branch (lines 105 to 108).\<close>

fun count_matches_from :: "int \<Rightarrow> match list \<Rightarrow> int \<Rightarrow> int \<Rightarrow> int" where
  "count_matches_from cnt [] t1 t2 = cnt"
| "count_matches_from cnt (m # ms) t1 t2 =
     (if (team1 m = t1 \<and> team2 m = t2) \<or> (team1 m = t2 \<and> team2 m = t1)
      then count_matches_from (cnt + 1) ms t1 t2
      else count_matches_from cnt ms t1 t2)"

definition count_matches :: "match list \<Rightarrow> int \<Rightarrow> int \<Rightarrow> int" where
  "count_matches matches t1 t2 = count_matches_from 0 matches t1 t2"

text \<open>The terms in which the statistics are specified.\<close>

definition participates :: "int \<Rightarrow> match \<Rightarrow> bool" where
  "participates t m = (team1 m = t \<or> team2 m = t)"

definition own_score :: "int \<Rightarrow> match \<Rightarrow> int" where
  \<comment> \<open>the score of the side the team occupies (the first side when it occupies both)\<close>
  "own_score t m = (if team1 m = t then team1_score m else team2_score m)"

definition opp_score :: "int \<Rightarrow> match \<Rightarrow> int" where
  "opp_score t m = (if team1 m = t then team2_score m else team1_score m)"

section \<open>Shell-style tokenization\<close>

text \<open>
  \<^verbatim>\<open>shlex.split(s)\<close> of the standard library, as the program calls it: POSIX mode, no
  comment characters, splitting on white space only. The scanner of \<^verbatim>\<open>shlex.read_token\<close>
  keeps a state (\<^verbatim>\<open>' '\<close> between tokens, \<^verbatim>\<open>'a'\<close> in a word, the quote character in
  a quotation, the escape character after a backslash, with the state to return to), the
  token read so far, and whether a quotation has been seen in it. The end of the text
  inside a quotation or after a backslash raises ValueError.
\<close>

datatype lex_state = Blank | Word | Quoted char | EscapedWord | EscapedQuoted char

definition shlex_whitespace :: "char \<Rightarrow> bool" where
  "shlex_whitespace c = (c = CHR '' '' \<or> c = CHR 0x09 \<or> c = CHR 0x0D \<or> c = CHR 0x0A)"

definition shlex_quote :: "char \<Rightarrow> bool" where
  "shlex_quote c = (c = CHR 0x27 \<or> c = CHR 0x22)"

definition shlex_escape :: "char \<Rightarrow> bool" where
  "shlex_escape c = (c = CHR 0x5C)"

definition emit :: "string \<Rightarrow> exn + string list \<Rightarrow> exn + string list" where
  "emit tok r = (case r of Inl e \<Rightarrow> Inl e | Inr toks \<Rightarrow> Inr (tok # toks))"

fun read_tokens :: "lex_state \<Rightarrow> bool \<Rightarrow> string \<Rightarrow> string \<Rightarrow> exn + string list" where
  "read_tokens Blank quoted tok [] = (if tok \<noteq> [] \<or> quoted then Inr [tok] else Inr [])"
| "read_tokens Word quoted tok [] = (if tok \<noteq> [] \<or> quoted then Inr [tok] else Inr [])"
| "read_tokens (Quoted q) quoted tok [] = Inl ValueError"
| "read_tokens EscapedWord quoted tok [] = Inl ValueError"
| "read_tokens (EscapedQuoted q) quoted tok [] = Inl ValueError"
| "read_tokens Blank quoted tok (c # cs) =
     (if shlex_whitespace c then
        (if tok \<noteq> [] \<or> quoted then emit tok (read_tokens Blank False [] cs)
         else read_tokens Blank quoted tok cs)
      else if shlex_escape c then read_tokens EscapedWord quoted tok cs
      else if shlex_quote c then read_tokens (Quoted c) quoted tok cs
      else read_tokens Word quoted [c] cs)"
| "read_tokens (Quoted q) quoted tok (c # cs) =
     (if c = q then read_tokens Word True tok cs
      else if shlex_escape c \<and> q = CHR 0x22 then read_tokens (EscapedQuoted q) True tok cs
      else read_tokens (Quoted q) True (tok @ [c]) cs)"
| "read_tokens EscapedWord quoted tok (c # cs) = read_tokens Word quoted (tok @ [c]) cs"
| "read_tokens (EscapedQuoted q) quoted tok (c # cs) =
     (if \<not> shlex_escape c \<and> c \<noteq> q
      then read_tokens (Quoted q) quoted (tok @ [CHR 0x5C] @ [c]) cs
      else read_tokens (Quoted q) quoted (tok @ [c]) cs)"
| "read_tokens Word quoted tok (c # cs) =
     (if shlex_whitespace c then
        (if tok \<noteq> [] \<or> quoted then emit tok (read_tokens Blank False [] cs)
         else read_tokens Blank quoted tok cs)
      else if shlex_quote c then read_tokens (Quoted c) quoted tok cs
      else if shlex_escape c then read_tokens EscapedWord quoted tok cs
      else read_tokens Word quoted (tok @ [c]) cs)"

definition shlex_split :: "string \<Rightarrow> exn + string list" where
  "shlex_split s = read_tokens Blank False [] s"

section \<open>The service and the streams\<close>

text \<open>
  \<^verbatim>\<open>fetch_json\<close> returns the decoded record or raises. The service is given by what it
  answers to each of the three kinds of request the program makes; a player is asked
  for by id, and the same id gets the same answer during a run. (An id comes from the
  decoded JSON or from \<^verbatim>\<open>int\<close>, so it is within the limit on the digits, and writing it
  into the path of the request does not fail.)
\<close>

record world =
  get_matches :: "exn + match list"
  get_teams :: "exn + team list"
  get_player :: "int \<Rightarrow> exn + player"

datatype event =
    Stdout string         \<comment> \<open>one \<^verbatim>\<open>print(s)\<close>\<close>
  | Stderr string         \<comment> \<open>one \<^verbatim>\<open>print(s, file=sys.stderr)\<close>\<close>
  | StderrExn string exn  \<comment> \<open>one \<^verbatim>\<open>print(f"<text>{e}", file=sys.stderr)\<close>: the text and the exception\<close>

datatype outcome =
    Exited nat     \<comment> \<open>the exit status\<close>
  | Uncaught exn   \<comment> \<open>an exception no handler caught ends the process\<close>

section \<open>The roster\<close>

definition full_name :: "player \<Rightarrow> string" where
  \<comment> \<open>lines 27 and 28\<close>
  "full_name pl =
     (let parts = [strip (case p_name pl of None \<Rightarrow> [] | Some n \<Rightarrow> n),
                   strip (case p_surname pl of None \<Rightarrow> [] | Some n \<Rightarrow> n)]
      in join '' '' (filter (\<lambda>p. p \<noteq> []) parts))"

definition team_players :: "team \<Rightarrow> int list" where
  \<comment> \<open>\<^verbatim>\<open>team.get('players', [])\<close>\<close>
  "team_players t = (case t_players t of None \<Rightarrow> [] | Some ps \<Rightarrow> ps)"

definition player_ids :: "team list \<Rightarrow> int list" where
  \<comment> \<open>lines 16 to 19: the set of the ids, each once. Python fixes no order on a set;
      \<open>fetch_names_set\<close> below shows that the order does not matter to the loop that
      reads it.\<close>
  "player_ids teams = remdups (concat (map team_players teams))"

fun fetch_names :: "world \<Rightarrow> int list \<Rightarrow> string list \<Rightarrow> exn + string list" where
  \<comment> \<open>lines 21 to 30: only HTTPError is caught\<close>
  "fetch_names w [] names = Inr names"
| "fetch_names w (pid # pids) names =
     (case get_player w pid of
        Inl HTTPError \<Rightarrow> fetch_names w pids names
      | Inl e \<Rightarrow> Inl e
      | Inr pl \<Rightarrow>
          (let full = full_name pl
           in if full \<noteq> [] then fetch_names w pids (names @ [full])
              else fetch_names w pids names))"

definition list_players :: "world \<Rightarrow> exn + (event list \<times> team list)" where
  "list_players w =
     (case get_teams w of
        Inl e \<Rightarrow> Inl e
      | Inr teams \<Rightarrow>
          (case fetch_names w (player_ids teams) [] of
             Inl e \<Rightarrow> Inl e
           | Inr names \<Rightarrow> Inr (map Stdout (sort (remdups names)), teams)))"

section \<open>The queries\<close>

definition team_map :: "team list \<Rightarrow> string \<Rightarrow> int option" where
  \<comment> \<open>line 56: a later team of the same name replaces an earlier one\<close>
  "team_map teams = foldl (\<lambda>m t. m(t_name t \<mapsto> t_id t)) Map.empty teams"

definition player_team :: "team list \<Rightarrow> int \<Rightarrow> int option" where
  \<comment> \<open>lines 58 to 61\<close>
  "player_team teams =
     foldl (\<lambda>m t. foldl (\<lambda>m' pid. m'(pid \<mapsto> t_id t)) m (team_players t)) Map.empty teams"

definition stats_query :: "team list \<Rightarrow> match list \<Rightarrow> string \<Rightarrow> event list \<times> exn option" where
  \<comment> \<open>lines 68 to 81, from the text after the command; line 80 formats the difference,
      line 81 the wins and then the losses, and no handler is around them\<close>
  "stats_query teams matches rest =
     (case shlex_split rest of
        Inl e \<Rightarrow> ([Stdout ''0 0 0''], None)
      | Inr [] \<Rightarrow> ([Stdout ''0 0 0''], None)
      | Inr (name # _) \<Rightarrow>
          (case team_map teams name of
             None \<Rightarrow> ([Stdout ''0 0 0''], None)
           | Some tid \<Rightarrow>
               (let (w, l, d) = compute_stats matches tid
                in case format_plus d of
                     Inl e \<Rightarrow> ([], Some e)
                   | Inr diff_str \<Rightarrow>
                       (case str_int w of
                          Inl e \<Rightarrow> ([], Some e)
                        | Inr ws \<Rightarrow>
                            (case str_int l of
                               Inl e \<Rightarrow> ([], Some e)
                             | Inr ls \<Rightarrow>
                                 ([Stdout (ws @ '' '' @ ls @ '' '' @ diff_str)], None))))))"

fun players_exist :: "world \<Rightarrow> int list \<Rightarrow> exn + bool" where
  \<comment> \<open>lines 90 to 96\<close>
  "players_exist w [] = Inr True"
| "players_exist w (pid # pids) =
     (case get_player w pid of
        Inl HTTPError \<Rightarrow> Inr False
      | Inl e \<Rightarrow> Inl e
      | Inr pl \<Rightarrow> players_exist w pids)"

definition versus_query ::
  "world \<Rightarrow> team list \<Rightarrow> match list \<Rightarrow> string \<Rightarrow> event list \<times> exn option" where
  \<comment> \<open>lines 84 to 109, from the text after the command\<close>
  "versus_query w teams matches rest =
     (let parts = split rest
      in if length parts \<noteq> 2 \<or> \<not> list_all isdigit parts then ([Stdout ''0''], None)
         else
           (case (py_int (parts ! 0), py_int (parts ! 1)) of
              (Inl e, _) \<Rightarrow> ([], Some e)
            | (Inr p1, Inl e) \<Rightarrow> ([], Some e)
            | (Inr p1, Inr p2) \<Rightarrow>
                (case players_exist w [p1, p2] of
                   Inl e \<Rightarrow> ([], Some e)
                 | Inr False \<Rightarrow> ([Stdout ''0''], None)
                 | Inr True \<Rightarrow>
                     (case (player_team teams p1, player_team teams p2) of
                        (Some t1, Some t2) \<Rightarrow>
                          (case str_int (count_matches matches t1 t2) of
                             Inl e \<Rightarrow> ([], Some e)
                           | Inr cnt \<Rightarrow> ([Stdout cnt], None))
                      | _ \<Rightarrow> ([Stdout ''0''], None)))))"

definition handle_line ::
  "world \<Rightarrow> team list \<Rightarrow> match list \<Rightarrow> string \<Rightarrow> event list \<times> exn option" where
  \<comment> \<open>the body of the loop over the lines, lines 63 to 112: what it writes, and the
      exception that leaves it, if any\<close>
  "handle_line w teams matches raw =
     (let line = strip raw
      in if line = [] then ([], None)
         else if startswith line ''stats?'' then
           stats_query teams matches (strip (drop (length ''stats?'') line))
         else if startswith line ''versus?'' then
           versus_query w teams matches (strip (drop (length ''versus?'') line))
         else ([Stderr ''Unrecognized query''], None))"

fun handle_queries ::
  "world \<Rightarrow> team list \<Rightarrow> match list \<Rightarrow> string list \<Rightarrow> event list \<times> exn option" where
  \<comment> \<open>the loop over the lines of the standard input\<close>
  "handle_queries w teams matches [] = ([], None)"
| "handle_queries w teams matches (raw # lines) =
     (case handle_line w teams matches raw of
        (out, Some e) \<Rightarrow> (out, Some e)
      | (out, None) \<Rightarrow>
          (case handle_queries w teams matches lines of (out', r) \<Rightarrow> (out @ out', r)))"

section \<open>The program\<close>

definition usable_token :: "string option \<Rightarrow> string option \<Rightarrow> string option" where
  \<comment> \<open>line 119: \<^verbatim>\<open>args.token or os.getenv('LKSH_TOKEN')\<close>, an empty string counting as none\<close>
  "usable_token arg env =
     (case arg of
        None \<Rightarrow> env
      | Some a \<Rightarrow> if a = [] then env else Some a)"

definition token_error :: string where
  "token_error = ''Error: Authorization token not provided. Obtain a plain-token from tg@lksh_p_2025_bot and pass it via --token or LKSH_TOKEN environment variable.''"

definition main :: "string option \<Rightarrow> string option \<Rightarrow> world \<Rightarrow> string list \<Rightarrow> event list \<times> outcome" where
  \<comment> \<open>lines 119 to 138, after the parsing of the arguments: the token of the command line
      and of the environment, the service, the lines of the standard input\<close>
  "main arg env w stdin =
     (case usable_token arg env of
        None \<Rightarrow> ([Stderr token_error], Exited 1)
      | Some token \<Rightarrow>
          if token = [] then ([Stderr token_error], Exited 1)
          else
            (case get_matches w of
               Inl e \<Rightarrow> ([StderrExn ''Failed to fetch matches: '' e], Exited 1)
             | Inr matches \<Rightarrow>
                 (case list_players w of
                    Inl e \<Rightarrow> ([StderrExn ''Failed to list players: '' e], Exited 1)
                  | Inr (names, teams) \<Rightarrow>
                      (case handle_queries w teams matches stdin of
                         (out, None) \<Rightarrow> (names @ out, Exited 0)
                       | (out, Some e) \<Rightarrow> (names @ out, Uncaught e)))))"

section \<open>Properties of the match statistics\<close>

lemma stats_loop_acc:
  "stats_loop ms t (w, l, f, a) =
     (w + int (length (filter (\<lambda>m. participates t m \<and> own_score t m > opp_score t m) ms)),
      l + int (length (filter (\<lambda>m. participates t m \<and> own_score t m < opp_score t m) ms)),
      f + (\<Sum>m\<leftarrow>filter (participates t) ms. own_score t m),
      a + (\<Sum>m\<leftarrow>filter (participates t) ms. opp_score t m))"
  by (induction ms arbitrary: w l f a)
     (auto simp: participates_def own_score_def opp_score_def Let_def)

lemma sum_list_diff:
  "(\<Sum>m\<leftarrow>xs. (f m :: int)) - (\<Sum>m\<leftarrow>xs. g m) = (\<Sum>m\<leftarrow>xs. f m - g m)"
  by (induction xs) auto

lemma count_matches_from_sym:
  "count_matches_from cnt ms a b = count_matches_from cnt ms b a"
  by (induction ms arbitrary: cnt) auto

lemma count_matches_from_pair:
  "count_matches_from cnt ms a b =
     cnt + int (length (filter (\<lambda>m. {team1 m, team2 m} = {a, b}) ms))"
  by (induction ms arbitrary: cnt) (auto simp: doubleton_eq_iff)

lemma count_matches_from_same:
  "count_matches_from cnt ms a a =
     cnt + int (length (filter (\<lambda>m. team1 m = a \<and> team2 m = a) ms))"
  by (induction ms arbitrary: cnt) auto

text \<open>
  C2. For every list of matches and every team id, \<open>compute_stats\<close> returns the number of
  matches the team takes part in with its own score above the opponent's, the number
  with its own score below, and the sum over the matches it takes part in of own score
  minus opponent's score; a drawn match adds to neither count. For a team that takes
  part in no match the result is (0, 0, 0).
\<close>

theorem compute_stats_spec:
  "compute_stats ms t =
     (int (length (filter (\<lambda>m. participates t m \<and> own_score t m > opp_score t m) ms)),
      int (length (filter (\<lambda>m. participates t m \<and> own_score t m < opp_score t m) ms)),
      (\<Sum>m\<leftarrow>filter (participates t) ms. own_score t m - opp_score t m))
   \<and> ((\<forall>m \<in> set ms. \<not> participates t m) \<longrightarrow> compute_stats ms t = (0, 0, 0))"
proof -
  have eq: "compute_stats ms t =
     (int (length (filter (\<lambda>m. participates t m \<and> own_score t m > opp_score t m) ms)),
      int (length (filter (\<lambda>m. participates t m \<and> own_score t m < opp_score t m) ms)),
      (\<Sum>m\<leftarrow>filter (participates t) ms. own_score t m - opp_score t m))"
    by (simp add: compute_stats_def stats_loop_acc sum_list_diff)
  have "compute_stats ms t = (0, 0, 0)" if "\<forall>m \<in> set ms. \<not> participates t m"
  proof -
    from that have "filter (participates t) ms = []"
      by (simp add: filter_empty_conv)
    moreover from that
    have "filter (\<lambda>m. participates t m \<and> own_score t m > opp_score t m) ms = []"
      and "filter (\<lambda>m. participates t m \<and> own_score t m < opp_score t m) ms = []"
      by (simp_all add: filter_empty_conv)
    ultimately show ?thesis using eq by simp
  qed
  with eq show ?thesis by blast
qed

theorem compute_stats_spec_witness:
  "\<not> participates 7 \<lparr>team1 = 1, team2 = 2, team1_score = 3, team2_score = 1\<rparr>
   \<and> \<not> participates 7 \<lparr>team1 = 2, team2 = 3, team1_score = 0, team2_score = 0\<rparr>
   \<and> compute_stats [\<lparr>team1 = 1, team2 = 2, team1_score = 3, team2_score = 1\<rparr>,
                    \<lparr>team1 = 2, team2 = 3, team1_score = 0, team2_score = 0\<rparr>] 7 = (0, 0, 0)
   \<and> compute_stats [\<lparr>team1 = 1, team2 = 2, team1_score = 3, team2_score = 1\<rparr>,
                    \<lparr>team1 = 2, team2 = 3, team1_score = 0, team2_score = 0\<rparr>] 2 = (0, 1, - 2)"
  using compute_stats_spec
          [of "[\<lparr>team1 = 1, team2 = 2, team1_score = 3, team2_score = 1\<rparr>,
                \<lparr>team1 = 2, team2 = 3, team1_score = 0, team2_score = 0\<rparr>]" 7]
        compute_stats_spec
          [of "[\<lparr>team1 = 1, team2 = 2, team1_score = 3, team2_score = 1\<rparr>,
                \<lparr>team1 = 2, team2 = 3, team1_score = 0, team2_score = 0\<rparr>]" 2]
  by (simp add: participates_def own_score_def opp_score_def)

text \<open>
  C7. For every list of matches and every team id, the wins and the losses that
  \<open>compute_stats\<close> returns add up to at most the number of matches in which the team
  takes part as either side, and what is missing is the number of its drawn matches.
\<close>

theorem wins_losses_bound:
  "compute_stats ms t = (w, l, d) \<Longrightarrow>
     w + l \<le> int (length (filter (participates t) ms)) \<and>
     int (length (filter (participates t) ms)) - (w + l) =
       int (length (filter (\<lambda>m. participates t m \<and> own_score t m = opp_score t m) ms))"
proof -
  have split3: "length (filter (participates t) ms) =
      length (filter (\<lambda>m. participates t m \<and> own_score t m > opp_score t m) ms)
    + length (filter (\<lambda>m. participates t m \<and> own_score t m < opp_score t m) ms)
    + length (filter (\<lambda>m. participates t m \<and> own_score t m = opp_score t m) ms)"
    by (induction ms) auto
  assume "compute_stats ms t = (w, l, d)"
  then have "w = int (length (filter (\<lambda>m. participates t m \<and> own_score t m > opp_score t m) ms))"
    and "l = int (length (filter (\<lambda>m. participates t m \<and> own_score t m < opp_score t m) ms))"
    by (simp_all add: compute_stats_def stats_loop_acc)
  with split3 show ?thesis by simp
qed

theorem wins_losses_bound_witness:
  "compute_stats [\<lparr>team1 = 1, team2 = 2, team1_score = 3, team2_score = 1\<rparr>,
                  \<lparr>team1 = 2, team2 = 1, team1_score = 2, team2_score = 2\<rparr>,
                  \<lparr>team1 = 3, team2 = 1, team1_score = 4, team2_score = 0\<rparr>,
                  \<lparr>team1 = 3, team2 = 2, team1_score = 1, team2_score = 0\<rparr>] 1 = (1, 1, - 2)
   \<and> (1::int) + 1 \<le> int (length (filter (participates 1)
                 [\<lparr>team1 = 1, team2 = 2, team1_score = 3, team2_score = 1\<rparr>,
                  \<lparr>team1 = 2, team2 = 1, team1_score = 2, team2_score = 2\<rparr>,
                  \<lparr>team1 = 3, team2 = 1, team1_score = 4, team2_score = 0\<rparr>,
                  \<lparr>team1 = 3, team2 = 2, team1_score = 1, team2_score = 0\<rparr>]))
   \<and> int (length (filter (\<lambda>m. participates 1 m \<and> own_score 1 m = opp_score 1 m)
                 [\<lparr>team1 = 1, team2 = 2, team1_score = 3, team2_score = 1\<rparr>,
                  \<lparr>team1 = 2, team2 = 1, team1_score = 2, team2_score = 2\<rparr>,
                  \<lparr>team1 = 3, team2 = 1, team1_score = 4, team2_score = 0\<rparr>,
                  \<lparr>team1 = 3, team2 = 2, team1_score = 1, team2_score = 0\<rparr>])) = 1"
proof -
  have run: "compute_stats [\<lparr>team1 = 1, team2 = 2, team1_score = 3, team2_score = 1\<rparr>,
                  \<lparr>team1 = 2, team2 = 1, team1_score = 2, team2_score = 2\<rparr>,
                  \<lparr>team1 = 3, team2 = 1, team1_score = 4, team2_score = 0\<rparr>,
                  \<lparr>team1 = 3, team2 = 2, team1_score = 1, team2_score = 0\<rparr>] 1 = (1, 1, - 2)"
    by (simp add: compute_stats_def)
  from wins_losses_bound [OF run] run show ?thesis
    by (simp add: participates_def own_score_def opp_score_def)
qed

text \<open>
  C6. The head-to-head count does not depend on the order of the two team ids: for every
  list of matches and team ids a and b, the count for (a, b) is the count for (b, a),
  namely the number of matches whose pair of sides is the pair {a, b}. When a equals b,
  it is the number of matches in which both sides are that id, each counted once.
\<close>

theorem count_matches_symmetric:
  "count_matches ms a b = count_matches ms b a \<and>
   count_matches ms a a = int (length (filter (\<lambda>m. team1 m = a \<and> team2 m = a) ms)) \<and>
   count_matches ms a b = int (length (filter (\<lambda>m. {team1 m, team2 m} = {a, b}) ms))"
  unfolding count_matches_def
  using count_matches_from_sym [of 0 ms a b] count_matches_from_same [of 0 ms a]
    count_matches_from_pair [of 0 ms a b]
  by simp

theorem count_matches_symmetric_witness:
  "count_matches [\<lparr>team1 = 1, team2 = 2, team1_score = 3, team2_score = 1\<rparr>,
                  \<lparr>team1 = 2, team2 = 1, team1_score = 2, team2_score = 2\<rparr>,
                  \<lparr>team1 = 5, team2 = 5, team1_score = 0, team2_score = 0\<rparr>] 2 1 = 2
   \<and> count_matches [\<lparr>team1 = 1, team2 = 2, team1_score = 3, team2_score = 1\<rparr>,
                  \<lparr>team1 = 2, team2 = 1, team1_score = 2, team2_score = 2\<rparr>,
                  \<lparr>team1 = 5, team2 = 5, team1_score = 0, team2_score = 0\<rparr>] 5 5 = 1"
  using count_matches_symmetric
          [of "[\<lparr>team1 = 1, team2 = 2, team1_score = 3, team2_score = 1\<rparr>,
                \<lparr>team1 = 2, team2 = 1, team1_score = 2, team2_score = 2\<rparr>,
                \<lparr>team1 = 5, team2 = 5, team1_score = 0, team2_score = 0\<rparr>]" 1 2]
        count_matches_symmetric
          [of "[\<lparr>team1 = 1, team2 = 2, team1_score = 3, team2_score = 1\<rparr>,
                \<lparr>team1 = 2, team2 = 1, team1_score = 2, team2_score = 2\<rparr>,
                \<lparr>team1 = 5, team2 = 5, team1_score = 0, team2_score = 0\<rparr>]" 5 5]
  by (simp add: count_matches_def)

section \<open>Properties of the query loop\<close>

lemma rstrip_snoc:
  "rev (dropWhile P (rev xs @ [x])) =
     (if (\<forall>y\<in>set xs. P y) \<and> P x then [] else x # rev (dropWhile P (rev xs)))"
  by (auto simp: dropWhile_append dropWhile_eq_Nil_conv)

lemma lstrip_rstrip:
  "dropWhile P (rev (dropWhile P (rev xs))) = rev (dropWhile P (rev (dropWhile P xs)))"
proof (induction xs)
  case Nil
  then show ?case by simp
next
  case (Cons x xs)
  show ?case
  proof (cases "P x")
    case True
    have "dropWhile P (rev (dropWhile P (rev (x # xs)))) = dropWhile P (rev (dropWhile P (rev xs)))"
    proof (cases "\<forall>y\<in>set xs. P y")
      case all: True
      then have d: "dropWhile P (rev xs) = []" by (simp add: dropWhile_eq_Nil_conv)
      from all True show ?thesis by (simp add: rstrip_snoc d)
    next
      case False
      with True show ?thesis by (auto simp: rstrip_snoc)
    qed
    with True Cons show ?thesis by simp
  next
    case False
    then show ?thesis by (simp add: rstrip_snoc)
  qed
qed

lemma strip_rstrip: "strip (rev (dropWhile isspace (rev r))) = strip r"
  by (simp add: strip_def lstrip_rstrip)

lemma strip_prefix:
  assumes "p \<noteq> []" "\<not> isspace (hd p)" "\<not> isspace (last p)"
  shows "strip (p @ r) = p @ rev (dropWhile isspace (rev r))"
proof -
  from assms have l: "dropWhile isspace (p @ r) = p @ r"
    by (cases p) auto
  from assms have "\<exists>x\<in>set (rev p). True" by (cases p) auto
  have "dropWhile isspace (rev r @ rev p) = dropWhile isspace (rev r) @ rev p"
  proof (cases "\<forall>x\<in>set (rev r). isspace x")
    case True
    from assms have "dropWhile isspace (rev p) = rev p"
      by (cases p rule: rev_cases) auto
    with True show ?thesis by (simp add: dropWhile_append)
  next
    case False
    then show ?thesis by (auto simp: dropWhile_append)
  qed
  with l show ?thesis by (simp add: strip_def)
qed


lemma startswith_append: "startswith s p \<Longrightarrow> s = p @ drop (length p) s"
  by (metis append_take_drop_id startswith_def)

lemma strip_command:
  assumes "startswith raw p" "p \<noteq> []" "\<not> isspace (hd p)" "\<not> isspace (last p)"
  shows "strip raw = p @ rev (dropWhile isspace (rev (drop (length p) raw)))"
    and "strip (drop (length p) (strip raw)) = strip (drop (length p) raw)"
proof -
  from assms(1) have raw: "raw = p @ drop (length p) raw" by (rule startswith_append)
  show s: "strip raw = p @ rev (dropWhile isspace (rev (drop (length p) raw)))"
    using strip_prefix [OF assms(2-4), of "drop (length p) raw"] raw by simp
  show "strip (drop (length p) (strip raw)) = strip (drop (length p) raw)"
    by (simp add: s strip_rstrip)
qed


lemma handle_queries_continue:
  "handle_line w teams ms raw = (out, None) \<Longrightarrow>
     handle_queries w teams ms (raw # lines) =
       (out @ fst (handle_queries w teams ms lines), snd (handle_queries w teams ms lines))"
  by (simp split: prod.splits)

lemma handle_queries_raise:
  "handle_line w teams ms raw = (out, Some e) \<Longrightarrow>
     handle_queries w teams ms (raw # lines) = (out, Some e)"
  by simp

lemma startswith_nonempty: "startswith s p \<Longrightarrow> p \<noteq> [] \<Longrightarrow> s \<noteq> []"
  by (auto simp: startswith_def)

lemma handle_line_stats:
  "startswith (strip raw) ''stats?'' \<Longrightarrow>
     handle_line w teams ms raw = stats_query teams ms (strip (drop (length ''stats?'') (strip raw)))"
  using startswith_nonempty [of "strip raw" "''stats?''"]
  by (simp add: handle_line_def Let_def)

lemma versus_not_stats: "startswith s ''versus?'' \<Longrightarrow> \<not> startswith s ''stats?''"
proof -
  assume "startswith s ''versus?''"
  then have "s = ''versus?'' @ drop (length ''versus?'') s" by (rule startswith_append)
  then obtain t where "s = ''versus?'' @ t" ..
  then show ?thesis by (simp add: startswith_def)
qed

lemma handle_line_versus:
  "startswith (strip raw) ''versus?'' \<Longrightarrow>
     handle_line w teams ms raw = versus_query w teams ms (strip (drop (length ''versus?'') (strip raw)))"
  using startswith_nonempty [of "strip raw" "''versus?''"] versus_not_stats [of "strip raw"]
  by (simp add: handle_line_def Let_def)

text \<open>
  C8. For every input line: a line that is empty once the surrounding white space is
  stripped writes nothing to either stream, and the loop goes on with the next line.
  Every other line that, so stripped, begins with neither \<^verbatim>\<open>stats?\<close> nor \<^verbatim>\<open>versus?\<close>
  writes the one line \<^verbatim>\<open>Unrecognized query\<close> to the error stream and nothing to the
  standard output, and the loop goes on with the next line.
\<close>

theorem blank_and_unrecognized:
  "(strip raw = [] \<longrightarrow>
      handle_line w teams ms raw = ([], None) \<and>
      handle_queries w teams ms (raw # lines) = handle_queries w teams ms lines)
   \<and> (strip raw \<noteq> [] \<and> \<not> startswith (strip raw) ''stats?'' \<and>
        \<not> startswith (strip raw) ''versus?'' \<longrightarrow>
      handle_line w teams ms raw = ([Stderr ''Unrecognized query''], None) \<and>
      handle_queries w teams ms (raw # lines) =
        (Stderr ''Unrecognized query'' # fst (handle_queries w teams ms lines),
         snd (handle_queries w teams ms lines)))"
  by (simp add: handle_line_def Let_def split: prod.splits)

theorem blank_and_unrecognized_witness:
  "strip [CHR '' '', CHR 0x09, CHR 0x0A] = []
   \<and> strip ''foo? bar'' \<noteq> []
   \<and> \<not> startswith (strip ''foo? bar'') ''stats?''
   \<and> \<not> startswith (strip ''foo? bar'') ''versus?''
   \<and> handle_queries \<lparr>get_matches = Inr [], get_teams = Inr [], get_player = (\<lambda>pid. Inl HTTPError)\<rparr>
         [] [] [[CHR '' '', CHR 0x09, CHR 0x0A], ''foo? bar'', [CHR 0x0A]] =
       ([Stderr ''Unrecognized query''], None)"
proof -
  have blank: "strip [CHR '' '', CHR 0x09, CHR 0x0A] = []" "strip [CHR 0x0A] = []"
    by (simp_all add: strip_def isspace_def)
  have other: "strip ''foo? bar'' = ''foo? bar''"
    by (simp add: strip_def isspace_def)
  show ?thesis
    using blank_and_unrecognized
            [of "[CHR '' '', CHR 0x09, CHR 0x0A]"
                "\<lparr>get_matches = Inr [], get_teams = Inr [], get_player = (\<lambda>pid. Inl HTTPError)\<rparr>"
                "[]" "[]" "[''foo? bar'', [CHR 0x0A]]"]
          blank_and_unrecognized
            [of "''foo? bar''"
                "\<lparr>get_matches = Inr [], get_teams = Inr [], get_player = (\<lambda>pid. Inl HTTPError)\<rparr>"
                "[]" "[]" "[[CHR 0x0A]]"]
          blank_and_unrecognized
            [of "[CHR 0x0A]"
                "\<lparr>get_matches = Inr [], get_teams = Inr [], get_player = (\<lambda>pid. Inl HTTPError)\<rparr>"
                "[]" "[]" "[]"]
    by (simp add: blank other startswith_def)
qed

lemma strip_space_Cons: "isspace c \<Longrightarrow> strip (c # r) = strip r"
  by (simp add: strip_def)

text \<open>
  C9. The command is recognised by its prefix alone, with no space required after it:
  every line that begins with the six characters \<^verbatim>\<open>stats?\<close> is handled as a stats
  query on the text that follows the prefix, and every line that begins with \<^verbatim>\<open>versus?\<close>
  as a versus query on the text that follows it. A space after the prefix changes
  nothing.
\<close>

theorem dispatch_by_prefix:
  "(startswith raw ''stats?'' \<longrightarrow>
      handle_line w teams ms raw = stats_query teams ms (strip (drop (length ''stats?'') raw)))
   \<and> (startswith raw ''versus?'' \<longrightarrow>
      handle_line w teams ms raw = versus_query w teams ms (strip (drop (length ''versus?'') raw)))
   \<and> handle_line w teams ms (''stats?'' @ r) = handle_line w teams ms (''stats? '' @ r)
   \<and> handle_line w teams ms (''versus?'' @ r) = handle_line w teams ms (''versus? '' @ r)"
proof -
  have sp: "\<not> isspace CHR ''s''" "\<not> isspace CHR ''?''" "\<not> isspace CHR ''v''" "isspace CHR '' ''"
    by (simp_all add: isspace_def)
  have stats: "handle_line w teams ms raw = stats_query teams ms (strip (drop (length ''stats?'') raw))"
    if "startswith raw ''stats?''" for raw
  proof -
    from that sp have 1: "strip raw = ''stats?'' @ rev (dropWhile isspace (rev (drop (length ''stats?'') raw)))"
      and 2: "strip (drop (length ''stats?'') (strip raw)) = strip (drop (length ''stats?'') raw)"
      using strip_command [of raw "''stats?''"] by simp_all
    from 1 have "startswith (strip raw) ''stats?''" by (simp add: startswith_def)
    with 2 show ?thesis by (simp add: handle_line_stats)
  qed
  have versus: "handle_line w teams ms raw = versus_query w teams ms (strip (drop (length ''versus?'') raw))"
    if "startswith raw ''versus?''" for raw
  proof -
    from that sp have 1: "strip raw = ''versus?'' @ rev (dropWhile isspace (rev (drop (length ''versus?'') raw)))"
      and 2: "strip (drop (length ''versus?'') (strip raw)) = strip (drop (length ''versus?'') raw)"
      using strip_command [of raw "''versus?''"] by simp_all
    from 1 have "startswith (strip raw) ''versus?''" by (simp add: startswith_def)
    with 2 show ?thesis by (simp add: handle_line_versus)
  qed
  have "handle_line w teams ms (''stats?'' @ r) = handle_line w teams ms (''stats? '' @ r)"
    using stats [of "''stats?'' @ r"] stats [of "''stats? '' @ r"] sp
    by (simp add: startswith_def strip_space_Cons)
  moreover
  have "handle_line w teams ms (''versus?'' @ r) = handle_line w teams ms (''versus? '' @ r)"
    using versus [of "''versus?'' @ r"] versus [of "''versus? '' @ r"] sp
    by (simp add: startswith_def strip_space_Cons)
  ultimately show ?thesis using stats versus by blast
qed


theorem dispatch_by_prefix_witness:
  "startswith ''stats?Falcons'' ''stats?''
   \<and> handle_line
        \<lparr>get_matches = Inr [], get_teams = Inr [],
           get_player = (\<lambda>pid. if pid = 10 \<or> pid = 11 then Inr \<lparr>p_name = None, p_surname = None\<rparr>
                               else Inl HTTPError)\<rparr>
        [\<lparr>t_id = 1, t_name = ''Falcons'', t_players = Some [10]\<rparr>,
         \<lparr>t_id = 2, t_name = ''?'', t_players = Some [11]\<rparr>]
        [\<lparr>team1 = 1, team2 = 2, team1_score = 3, team2_score = 1\<rparr>,
         \<lparr>team1 = 2, team2 = 1, team1_score = 0, team2_score = 0\<rparr>]
        ''stats?Falcons'' = ([Stdout ''1 0 +2''], None)
   \<and> startswith ''stats??'' ''stats?''
   \<and> handle_line
        \<lparr>get_matches = Inr [], get_teams = Inr [],
           get_player = (\<lambda>pid. if pid = 10 \<or> pid = 11 then Inr \<lparr>p_name = None, p_surname = None\<rparr>
                               else Inl HTTPError)\<rparr>
        [\<lparr>t_id = 1, t_name = ''Falcons'', t_players = Some [10]\<rparr>,
         \<lparr>t_id = 2, t_name = ''?'', t_players = Some [11]\<rparr>]
        [\<lparr>team1 = 1, team2 = 2, team1_score = 3, team2_score = 1\<rparr>,
         \<lparr>team1 = 2, team2 = 1, team1_score = 0, team2_score = 0\<rparr>]
        ''stats??'' = ([Stdout ''0 1 -2''], None)
   \<and> startswith ''versus?10 11'' ''versus?''
   \<and> handle_line
        \<lparr>get_matches = Inr [], get_teams = Inr [],
           get_player = (\<lambda>pid. if pid = 10 \<or> pid = 11 then Inr \<lparr>p_name = None, p_surname = None\<rparr>
                               else Inl HTTPError)\<rparr>
        [\<lparr>t_id = 1, t_name = ''Falcons'', t_players = Some [10]\<rparr>,
         \<lparr>t_id = 2, t_name = ''?'', t_players = Some [11]\<rparr>]
        [\<lparr>team1 = 1, team2 = 2, team1_score = 3, team2_score = 1\<rparr>,
         \<lparr>team1 = 2, team2 = 1, team1_score = 0, team2_score = 0\<rparr>]
        ''versus?10 11'' = ([Stdout ''2''], None)"
proof -
  have p: "startswith ''stats?Falcons'' ''stats?''" "startswith ''stats??'' ''stats?''"
    "startswith ''versus?10 11'' ''versus?''"
    by code_simp+
  have q1: "stats_query
        [\<lparr>t_id = 1, t_name = ''Falcons'', t_players = Some [10]\<rparr>,
         \<lparr>t_id = 2, t_name = ''?'', t_players = Some [11]\<rparr>]
        [\<lparr>team1 = 1, team2 = 2, team1_score = 3, team2_score = 1\<rparr>,
         \<lparr>team1 = 2, team2 = 1, team1_score = 0, team2_score = 0\<rparr>] (strip (drop (length ''stats?'') ''stats?Falcons'')) = ([Stdout ''1 0 +2''], None)"
    by code_simp
  have q2: "stats_query
        [\<lparr>t_id = 1, t_name = ''Falcons'', t_players = Some [10]\<rparr>,
         \<lparr>t_id = 2, t_name = ''?'', t_players = Some [11]\<rparr>]
        [\<lparr>team1 = 1, team2 = 2, team1_score = 3, team2_score = 1\<rparr>,
         \<lparr>team1 = 2, team2 = 1, team1_score = 0, team2_score = 0\<rparr>] (strip (drop (length ''stats?'') ''stats??'')) = ([Stdout ''0 1 -2''], None)"
    by code_simp
  have q3: "versus_query
        \<lparr>get_matches = Inr [], get_teams = Inr [],
           get_player = (\<lambda>pid. if pid = 10 \<or> pid = 11 then Inr \<lparr>p_name = None, p_surname = None\<rparr>
                               else Inl HTTPError)\<rparr>
        [\<lparr>t_id = 1, t_name = ''Falcons'', t_players = Some [10]\<rparr>,
         \<lparr>t_id = 2, t_name = ''?'', t_players = Some [11]\<rparr>]
        [\<lparr>team1 = 1, team2 = 2, team1_score = 3, team2_score = 1\<rparr>,
         \<lparr>team1 = 2, team2 = 1, team1_score = 0, team2_score = 0\<rparr>] (strip (drop (length ''versus?'') ''versus?10 11'')) = ([Stdout ''2''], None)"
    by code_simp
  have 1: "handle_line
        \<lparr>get_matches = Inr [], get_teams = Inr [],
           get_player = (\<lambda>pid. if pid = 10 \<or> pid = 11 then Inr \<lparr>p_name = None, p_surname = None\<rparr>
                               else Inl HTTPError)\<rparr>
        [\<lparr>t_id = 1, t_name = ''Falcons'', t_players = Some [10]\<rparr>,
         \<lparr>t_id = 2, t_name = ''?'', t_players = Some [11]\<rparr>]
        [\<lparr>team1 = 1, team2 = 2, team1_score = 3, team2_score = 1\<rparr>,
         \<lparr>team1 = 2, team2 = 1, team1_score = 0, team2_score = 0\<rparr>]
        ''stats?Falcons'' = ([Stdout ''1 0 +2''], None)"
    using dispatch_by_prefix [THEN conjunct1, THEN mp, OF p(1)] q1 by (rule trans)
  have 2: "handle_line
        \<lparr>get_matches = Inr [], get_teams = Inr [],
           get_player = (\<lambda>pid. if pid = 10 \<or> pid = 11 then Inr \<lparr>p_name = None, p_surname = None\<rparr>
                               else Inl HTTPError)\<rparr>
        [\<lparr>t_id = 1, t_name = ''Falcons'', t_players = Some [10]\<rparr>,
         \<lparr>t_id = 2, t_name = ''?'', t_players = Some [11]\<rparr>]
        [\<lparr>team1 = 1, team2 = 2, team1_score = 3, team2_score = 1\<rparr>,
         \<lparr>team1 = 2, team2 = 1, team1_score = 0, team2_score = 0\<rparr>]
        ''stats??'' = ([Stdout ''0 1 -2''], None)"
    using dispatch_by_prefix [THEN conjunct1, THEN mp, OF p(2)] q2 by (rule trans)
  have 3: "handle_line
        \<lparr>get_matches = Inr [], get_teams = Inr [],
           get_player = (\<lambda>pid. if pid = 10 \<or> pid = 11 then Inr \<lparr>p_name = None, p_surname = None\<rparr>
                               else Inl HTTPError)\<rparr>
        [\<lparr>t_id = 1, t_name = ''Falcons'', t_players = Some [10]\<rparr>,
         \<lparr>t_id = 2, t_name = ''?'', t_players = Some [11]\<rparr>]
        [\<lparr>team1 = 1, team2 = 2, team1_score = 3, team2_score = 1\<rparr>,
         \<lparr>team1 = 2, team2 = 1, team1_score = 0, team2_score = 0\<rparr>]
        ''versus?10 11'' = ([Stdout ''2''], None)"
    using dispatch_by_prefix [THEN conjunct2, THEN conjunct1, THEN mp, OF p(3)] q3 by (rule trans)
  from p 1 2 3 show ?thesis by blast
qed

lemma digit_char_decimal:
  "d < 10 \<Longrightarrow> isdecimal (digit_char d) \<and> int (of_char (digit_char d)) - 48 = int d"
  by (simp add: isdecimal_def digit_char_def)

lemma int_of_digits_snoc:
  "int_of_digits (ds @ [c]) = 10 * int_of_digits ds + (int (of_char c) - 48)"
  by (simp add: int_of_digits_def)

lemma str_nat_digits:
  "str_nat n \<noteq> [] \<and> list_all isdecimal (str_nat n) \<and> int_of_digits (str_nat n) = int n"
proof (induction n rule: str_nat.induct)
  case (1 n)
  show ?case
  proof (cases "n < 10")
    case True
    then show ?thesis
      using digit_char_decimal [of n] by (simp add: str_nat.simps [of n] int_of_digits_def)
  next
    case False
    have "n mod 10 < 10" by simp
    moreover have "10 * int (n div 10) + int (n mod 10) = int n"
      by presburger
    ultimately show ?thesis
      using False 1 digit_char_decimal [of "n mod 10"]
      by (simp add: str_nat.simps [of n] int_of_digits_snoc)
  qed
qed

lemma str_nat_length: "0 < k \<Longrightarrow> (length (str_nat n) \<le> k) = (n < 10 ^ k)"
proof (induction n arbitrary: k rule: str_nat.induct)
  case (1 n)
  show ?case
  proof (cases "n < 10")
    case True
    have "(10::nat) ^ 1 \<le> 10 ^ k" using 1(2) by (intro power_increasing) simp_all
    with True 1(2) show ?thesis by (simp add: str_nat.simps [of n])
  next
    case False
    show ?thesis
    proof (cases "k = 1")
      case True
      with False str_nat_digits [of "n div 10"] show ?thesis
        by (simp add: str_nat.simps [of n])
    next
      case k: False
      with 1(2) obtain j where j: "k = Suc j" "0 < j" by (cases k) auto
      have "(n div 10 < 10 ^ j) = (n < 10 ^ Suc j)"
        by (simp add: div_less_iff_less_mult mult.commute)
      with 1(1) [OF False j(2)] False j show ?thesis
        by (simp add: str_nat.simps [of n])
    qed
  qed
qed

lemma max_str_digits_pos: "0 < max_str_digits"
  by (simp add: max_str_digits_def)

lemma ten_le_limit: "(10::int) \<le> 10 ^ max_str_digits"
  using max_str_digits_pos self_le_power [of "10::int" max_str_digits] by simp

lemma small_below_limit: "i < 10 \<Longrightarrow> (i::int) < 10 ^ max_str_digits"
  using ten_le_limit by simp

lemma over_limit:
  "(length (str_nat (nat \<bar>i\<bar>)) > max_str_digits) = (10 ^ max_str_digits \<le> \<bar>i\<bar>)"
proof -
  have "(length (str_nat (nat \<bar>i\<bar>)) \<le> max_str_digits) = (nat \<bar>i\<bar> < 10 ^ max_str_digits)"
    using max_str_digits_pos by (rule str_nat_length)
  also have "\<dots> = (\<bar>i\<bar> < 10 ^ max_str_digits)"
  proof -
    have "(nat \<bar>i\<bar> < 10 ^ max_str_digits) = (int (nat \<bar>i\<bar>) < int (10 ^ max_str_digits))"
      by (simp only: of_nat_less_iff)
    then show ?thesis by simp
  qed
  finally show ?thesis by (simp only: not_le [symmetric] not_less) blast
qed

lemma str_int_limit:
  "str_int i = (if \<bar>i\<bar> < 10 ^ max_str_digits then Inr (decimal i) else Inl ValueError)"
  by (simp add: str_int_def over_limit not_le)

lemma format_plus_limit:
  "format_plus d = (if \<bar>d\<bar> < 10 ^ max_str_digits then Inr (signed_decimal d) else Inl ValueError)"
  by (simp add: format_plus_def over_limit not_le)

lemma signed_decimal_shape:
  "\<exists>ds. ds \<noteq> [] \<and> list_all isdecimal ds \<and> int_of_digits ds = \<bar>d\<bar> \<and>
        signed_decimal d = (if d < 0 then CHR ''-'' else CHR ''+'') # ds"
  using str_nat_digits [of "nat \<bar>d\<bar>"] by (auto simp: signed_decimal_def)

lemma format_plus_zero: "format_plus 0 = Inr ''+0''"
  by code_simp

lemma compute_stats_counts:
  "compute_stats ms t = (w, l, d) \<Longrightarrow>
     0 \<le> w \<and> w \<le> int (length ms) \<and> 0 \<le> l \<and> l \<le> int (length ms)"
  by (auto simp: compute_stats_def stats_loop_acc)

lemma dom_team_map_from:
  "dom (foldl (\<lambda>m t. m(t_name t \<mapsto> t_id t)) m0 teams) = dom m0 \<union> t_name ` set teams"
  by (induction teams arbitrary: m0) auto

lemma team_map_None: "team_map teams name = None \<longleftrightarrow> name \<notin> t_name ` set teams"
proof -
  have "dom (team_map teams) = t_name ` set teams"
    by (simp add: team_map_def dom_team_map_from)
  then have "name \<in> dom (team_map teams) \<longleftrightarrow> name \<in> t_name ` set teams"
    by (rule arg_cong)
  then show ?thesis by (simp only: domIff) blast
qed

lemma stats_known:
  assumes "shlex_split rest = Inr (name # toks)" "team_map teams name = Some tid"
    and "compute_stats ms tid = (w, l, d)"
  shows "stats_query teams ms rest =
     (if w < 10 ^ max_str_digits \<and> l < 10 ^ max_str_digits \<and> \<bar>d\<bar> < 10 ^ max_str_digits
      then ([Stdout (decimal w @ '' '' @ decimal l @ '' '' @ signed_decimal d)], None)
      else ([], Some ValueError))"
proof -
  from compute_stats_counts [OF assms(3)] have "\<bar>w\<bar> = w" "\<bar>l\<bar> = l" by simp_all
  with assms show ?thesis
    by (simp add: stats_query_def str_int_limit format_plus_limit)
qed

text \<open>
  C3, as amended. For every \<^verbatim>\<open>stats?\<close> line: when the shell-style tokenization of the
  text after the command fails or gives no token, or its first token is not the name of
  a team of the index, the line written is exactly \<^verbatim>\<open>0 0 0\<close>, whatever the matches are.
  Otherwise, when the wins, the losses and the absolute value of the goal difference of
  that team are all below \<open>10 ^ 4300\<close>, the line written is the wins, the losses and the
  difference, the difference always with an explicit sign, \<^verbatim>\<open>+\<close> or \<^verbatim>\<open>-\<close>, before its
  digits, \<^verbatim>\<open>+0\<close> for a difference of zero; when one of them is not, the formatting
  raises ValueError, nothing is written and the exception leaves the loop.
\<close>

theorem stats_query_output:
  assumes "startswith (strip raw) ''stats?''"
    and "rest = strip (drop (length ''stats?'') (strip raw))"
  shows "(shlex_split rest = Inl e \<longrightarrow> handle_line w teams ms raw = ([Stdout ''0 0 0''], None))
    \<and> (shlex_split rest = Inr [] \<longrightarrow> handle_line w teams ms raw = ([Stdout ''0 0 0''], None))
    \<and> (shlex_split rest = Inr (name # toks) \<and> name \<notin> t_name ` set teams \<longrightarrow>
          team_map teams name = None \<and> handle_line w teams ms raw = ([Stdout ''0 0 0''], None))
    \<and> (shlex_split rest = Inr (name # toks) \<and> name \<in> t_name ` set teams \<longrightarrow>
          (\<exists>tid wins losses d ds.
             team_map teams name = Some tid \<and> compute_stats ms tid = (wins, losses, d) \<and>
             (wins < 10 ^ max_str_digits \<and> losses < 10 ^ max_str_digits \<and>
              \<bar>d\<bar> < 10 ^ max_str_digits \<longrightarrow>
                handle_line w teams ms raw =
                  ([Stdout (decimal wins @ '' '' @ decimal losses @ '' '' @ signed_decimal d)],
                   None)) \<and>
             (\<not> (wins < 10 ^ max_str_digits \<and> losses < 10 ^ max_str_digits \<and>
                 \<bar>d\<bar> < 10 ^ max_str_digits) \<longrightarrow>
                handle_line w teams ms raw = ([], Some ValueError) \<and>
                handle_queries w teams ms (raw # lines) = ([], Some ValueError)) \<and>
             signed_decimal d = (if d < 0 then CHR ''-'' else CHR ''+'') # ds \<and>
             ds \<noteq> [] \<and> list_all isdecimal ds \<and> int_of_digits ds = \<bar>d\<bar>))
    \<and> signed_decimal 0 = ''+0''"
proof -
  have line: "handle_line w teams ms raw = stats_query teams ms rest"
    using assms by (simp add: handle_line_stats)
  have a: "shlex_split rest = Inl e \<longrightarrow> handle_line w teams ms raw = ([Stdout ''0 0 0''], None)"
    using line by (simp add: stats_query_def)
  have a': "shlex_split rest = Inr [] \<longrightarrow> handle_line w teams ms raw = ([Stdout ''0 0 0''], None)"
    using line by (simp add: stats_query_def)
  have b: "shlex_split rest = Inr (name # toks) \<and> name \<notin> t_name ` set teams \<longrightarrow>
      team_map teams name = None \<and> handle_line w teams ms raw = ([Stdout ''0 0 0''], None)"
  proof (intro impI, elim conjE)
    assume "shlex_split rest = Inr (name # toks)" "name \<notin> t_name ` set teams"
    with line team_map_None [of teams name]
    show "team_map teams name = None \<and> handle_line w teams ms raw = ([Stdout ''0 0 0''], None)"
      by (simp add: stats_query_def)
  qed
  have c: "shlex_split rest = Inr (name # toks) \<and> name \<in> t_name ` set teams \<longrightarrow>
          (\<exists>tid wins losses d ds.
             team_map teams name = Some tid \<and> compute_stats ms tid = (wins, losses, d) \<and>
             (wins < 10 ^ max_str_digits \<and> losses < 10 ^ max_str_digits \<and>
              \<bar>d\<bar> < 10 ^ max_str_digits \<longrightarrow>
                handle_line w teams ms raw =
                  ([Stdout (decimal wins @ '' '' @ decimal losses @ '' '' @ signed_decimal d)],
                   None)) \<and>
             (\<not> (wins < 10 ^ max_str_digits \<and> losses < 10 ^ max_str_digits \<and>
                 \<bar>d\<bar> < 10 ^ max_str_digits) \<longrightarrow>
                handle_line w teams ms raw = ([], Some ValueError) \<and>
                handle_queries w teams ms (raw # lines) = ([], Some ValueError)) \<and>
             signed_decimal d = (if d < 0 then CHR ''-'' else CHR ''+'') # ds \<and>
             ds \<noteq> [] \<and> list_all isdecimal ds \<and> int_of_digits ds = \<bar>d\<bar>)"
  proof (intro impI, elim conjE)
    assume tok: "shlex_split rest = Inr (name # toks)" and known: "name \<in> t_name ` set teams"
    from known team_map_None [of teams name] obtain tid where tid: "team_map teams name = Some tid"
      by auto
    obtain wins losses d where st: "compute_stats ms tid = (wins, losses, d)"
      by (cases "compute_stats ms tid") auto
    from signed_decimal_shape [of d] obtain ds where ds: "ds \<noteq> []" "list_all isdecimal ds"
      "int_of_digits ds = \<bar>d\<bar>" "signed_decimal d = (if d < 0 then CHR ''-'' else CHR ''+'') # ds"
      by blast
    note q = stats_known [OF tok tid st]
    have within: "wins < 10 ^ max_str_digits \<and> losses < 10 ^ max_str_digits \<and>
              \<bar>d\<bar> < 10 ^ max_str_digits \<longrightarrow>
                handle_line w teams ms raw =
                  ([Stdout (decimal wins @ '' '' @ decimal losses @ '' '' @ signed_decimal d)],
                   None)"
      using line q by simp
    have beyond: "\<not> (wins < 10 ^ max_str_digits \<and> losses < 10 ^ max_str_digits \<and>
                 \<bar>d\<bar> < 10 ^ max_str_digits) \<longrightarrow>
                handle_line w teams ms raw = ([], Some ValueError) \<and>
                handle_queries w teams ms (raw # lines) = ([], Some ValueError)"
    proof
      assume "\<not> (wins < 10 ^ max_str_digits \<and> losses < 10 ^ max_str_digits \<and>
                 \<bar>d\<bar> < 10 ^ max_str_digits)"
      with line q have "handle_line w teams ms raw = ([], Some ValueError)" by simp
      then show "handle_line w teams ms raw = ([], Some ValueError) \<and>
                handle_queries w teams ms (raw # lines) = ([], Some ValueError)"
        by (simp add: handle_queries_raise)
    qed
    from tid st within beyond ds
    show "\<exists>tid wins losses d ds.
             team_map teams name = Some tid \<and> compute_stats ms tid = (wins, losses, d) \<and>
             (wins < 10 ^ max_str_digits \<and> losses < 10 ^ max_str_digits \<and>
              \<bar>d\<bar> < 10 ^ max_str_digits \<longrightarrow>
                handle_line w teams ms raw =
                  ([Stdout (decimal wins @ '' '' @ decimal losses @ '' '' @ signed_decimal d)],
                   None)) \<and>
             (\<not> (wins < 10 ^ max_str_digits \<and> losses < 10 ^ max_str_digits \<and>
                 \<bar>d\<bar> < 10 ^ max_str_digits) \<longrightarrow>
                handle_line w teams ms raw = ([], Some ValueError) \<and>
                handle_queries w teams ms (raw # lines) = ([], Some ValueError)) \<and>
             signed_decimal d = (if d < 0 then CHR ''-'' else CHR ''+'') # ds \<and>
             ds \<noteq> [] \<and> list_all isdecimal ds \<and> int_of_digits ds = \<bar>d\<bar>"
      by - (intro exI conjI; assumption)
  qed
  have z: "signed_decimal 0 = ''+0''" by code_simp
  from a a' b c z show ?thesis by (intro conjI)
qed

theorem stats_query_output_witness:
  "startswith (strip ''stats? Falcons x'') ''stats?''
   \<and> shlex_split (strip (drop (length ''stats?'') (strip ''stats? Falcons x''))) = Inr [''Falcons'', ''x'']
   \<and> handle_line \<lparr>get_matches = Inr [], get_teams = Inr [], get_player = (\<lambda>pid. Inl HTTPError)\<rparr>
        [\<lparr>t_id = 1, t_name = ''Falcons'', t_players = Some [10, 11]\<rparr>]
        [\<lparr>team1 = 1, team2 = 2, team1_score = 3, team2_score = 1\<rparr>] ''stats? Falcons x'' =
       ([Stdout ''1 0 +2''], None)
   \<and> startswith (strip ''stats? Hawks'') ''stats?''
   \<and> shlex_split (strip (drop (length ''stats?'') (strip ''stats? Hawks''))) = Inr [''Hawks'']
   \<and> ''Hawks'' \<notin> t_name ` set [\<lparr>t_id = 1, t_name = ''Falcons'', t_players = Some [10, 11]\<rparr>]
   \<and> handle_line \<lparr>get_matches = Inr [], get_teams = Inr [], get_player = (\<lambda>pid. Inl HTTPError)\<rparr>
        [\<lparr>t_id = 1, t_name = ''Falcons'', t_players = Some [10, 11]\<rparr>]
        [\<lparr>team1 = 1, team2 = 2, team1_score = 3, team2_score = 1\<rparr>] ''stats? Hawks'' =
       ([Stdout ''0 0 0''], None)
   \<and> startswith (strip ''stats? 'Falcons'') ''stats?''
   \<and> shlex_split (strip (drop (length ''stats?'') (strip ''stats? 'Falcons''))) = Inl ValueError
   \<and> handle_line \<lparr>get_matches = Inr [], get_teams = Inr [], get_player = (\<lambda>pid. Inl HTTPError)\<rparr>
        [\<lparr>t_id = 1, t_name = ''Falcons'', t_players = Some [10, 11]\<rparr>]
        [\<lparr>team1 = 1, team2 = 2, team1_score = 3, team2_score = 1\<rparr>] ''stats? 'Falcons'' =
       ([Stdout ''0 0 0''], None)"
proof -
  let ?w = "\<lparr>get_matches = Inr [], get_teams = Inr [], get_player = (\<lambda>pid. Inl HTTPError)\<rparr>"
  let ?teams = "[\<lparr>t_id = 1, t_name = ''Falcons'', t_players = Some [10, 11]\<rparr>]"
  let ?ms = "[\<lparr>team1 = 1, team2 = 2, team1_score = 3, team2_score = 1\<rparr>]"
  have known: "startswith (strip ''stats? Falcons x'') ''stats?''"
    "shlex_split (strip (drop (length ''stats?'') (strip ''stats? Falcons x''))) = Inr [''Falcons'', ''x'']"
    "''Falcons'' \<in> t_name ` set ?teams"
    by code_simp+
  have vals: "team_map ?teams ''Falcons'' = Some 1" "compute_stats ?ms 1 = (1, 0, 2)"
    "decimal 1 @ '' '' @ decimal 0 @ '' '' @ signed_decimal 2 = ''1 0 +2''"
    by code_simp+
  have small: "(1::int) < 10 ^ max_str_digits" "(0::int) < 10 ^ max_str_digits"
    "\<bar>2::int\<bar> < 10 ^ max_str_digits"
    by (simp_all add: small_below_limit)
  have unknown: "startswith (strip ''stats? Hawks'') ''stats?''"
    "shlex_split (strip (drop (length ''stats?'') (strip ''stats? Hawks''))) = Inr [''Hawks'']"
    "''Hawks'' \<notin> t_name ` set ?teams"
    by code_simp+
  have failing: "startswith (strip ''stats? 'Falcons'') ''stats?''"
    "shlex_split (strip (drop (length ''stats?'') (strip ''stats? 'Falcons''))) = Inl ValueError"
    by code_simp+
  from stats_query_output [where name = "''Falcons''" and toks = "[''x'']"
      and teams = ?teams and w = ?w and ms = ?ms, OF known(1) refl] known(2,3)
  obtain tid wins losses d where
    r: "team_map ?teams ''Falcons'' = Some tid" "compute_stats ?ms tid = (wins, losses, d)"
      "wins < 10 ^ max_str_digits \<and> losses < 10 ^ max_str_digits \<and> \<bar>d\<bar> < 10 ^ max_str_digits \<longrightarrow>
         handle_line ?w ?teams ?ms ''stats? Falcons x'' =
           ([Stdout (decimal wins @ '' '' @ decimal losses @ '' '' @ signed_decimal d)], None)"
    by blast
  from r(1) vals(1) have "tid = 1" by simp
  with r(2) vals(2) have "wins = 1" "losses = 0" "d = 2" by simp_all
  with r(3) small vals(3)
  have 0: "handle_line ?w ?teams ?ms ''stats? Falcons x'' = ([Stdout ''1 0 +2''], None)"
    by simp
  from stats_query_output [where name = "''Hawks''" and toks = "[]"
      and teams = ?teams and w = ?w and ms = ?ms, OF unknown(1) refl] unknown(2,3)
  have 1: "handle_line ?w ?teams ?ms ''stats? Hawks'' = ([Stdout ''0 0 0''], None)"
    by blast
  from stats_query_output [where e = ValueError
      and teams = ?teams and w = ?w and ms = ?ms, OF failing(1) refl] failing(2)
  have 2: "handle_line ?w ?teams ?ms ''stats? 'Falcons'' = ([Stdout ''0 0 0''], None)"
    by blast
  from known(1,2) unknown failing 0 1 2 show ?thesis by (intro conjI)
qed

text \<open>
  C3 as stated fails where the goal difference has more than 4300 digits: scores of 4300
  digits can be decoded and written, two matches won with such scores give a difference
  of 4301 digits, and the line 80 raises ValueError instead of writing the statistics.
\<close>

theorem stats_query_counterexample:
  "str_int (10 ^ max_str_digits - 1) = Inr (decimal (10 ^ max_str_digits - 1))
   \<and> ''Falcons'' \<in> t_name ` set [\<lparr>t_id = 1, t_name = ''Falcons'', t_players = Some [10, 11]\<rparr>]
   \<and> handle_line \<lparr>get_matches = Inr [], get_teams = Inr [], get_player = (\<lambda>pid. Inl HTTPError)\<rparr>
        [\<lparr>t_id = 1, t_name = ''Falcons'', t_players = Some [10, 11]\<rparr>]
        [\<lparr>team1 = 1, team2 = 2, team1_score = 10 ^ max_str_digits - 1, team2_score = 0\<rparr>,
         \<lparr>team1 = 1, team2 = 3, team1_score = 10 ^ max_str_digits - 1, team2_score = 0\<rparr>]
        ''stats? Falcons'' = ([], Some ValueError)"
proof -
  let ?w = "\<lparr>get_matches = Inr [], get_teams = Inr [], get_player = (\<lambda>pid. Inl HTTPError)\<rparr>"
  let ?teams = "[\<lparr>t_id = 1, t_name = ''Falcons'', t_players = Some [10, 11]\<rparr>]"
  define b :: int where "b = 10 ^ max_str_digits - 1"
  have "0 < b" "b < 10 ^ max_str_digits" "10 ^ max_str_digits \<le> 2 * b"
    using ten_le_limit by (simp_all add: b_def)
  then have b: "0 < b" "\<bar>b\<bar> < 10 ^ max_str_digits" "\<not> \<bar>2 * b\<bar> < 10 ^ max_str_digits"
    by simp_all
  have line: "startswith (strip ''stats? Falcons'') ''stats?''"
    "shlex_split (strip (drop (length ''stats?'') (strip ''stats? Falcons''))) = Inr [''Falcons'']"
    "team_map ?teams ''Falcons'' = Some 1" "''Falcons'' \<in> t_name ` set ?teams"
    by code_simp+
  have stats: "compute_stats
      [\<lparr>team1 = 1, team2 = 2, team1_score = b, team2_score = 0\<rparr>,
       \<lparr>team1 = 1, team2 = 3, team1_score = b, team2_score = 0\<rparr>] 1 = (2, 0, 2 * b)"
    using b(1) by (simp add: compute_stats_def)
  from stats_known [OF line(2,3) stats] b(3)
  have "stats_query ?teams
      [\<lparr>team1 = 1, team2 = 2, team1_score = b, team2_score = 0\<rparr>,
       \<lparr>team1 = 1, team2 = 3, team1_score = b, team2_score = 0\<rparr>]
      (strip (drop (length ''stats?'') (strip ''stats? Falcons''))) = ([], Some ValueError)"
    by simp
  with handle_line_stats [OF line(1), of ?w ?teams]
  have "handle_line ?w ?teams
      [\<lparr>team1 = 1, team2 = 2, team1_score = b, team2_score = 0\<rparr>,
       \<lparr>team1 = 1, team2 = 3, team1_score = b, team2_score = 0\<rparr>]
      ''stats? Falcons'' = ([], Some ValueError)"
    by simp
  moreover from b(2) have "str_int b = Inr (decimal b)"
    by (simp add: str_int_limit)
  ultimately show ?thesis using line(4) unfolding b_def by (intro conjI)
qed


















lemma split_from_nonempty: "x \<in> set (split_from w s) \<Longrightarrow> x \<noteq> []"
  by (induction s arbitrary: w) (auto split: if_splits)

lemma split_nonempty: "x \<in> set (split s) \<Longrightarrow> x \<noteq> []"
  by (simp add: split_def split_from_nonempty)

lemma split_from_word:
  "\<forall>c\<in>set xs. \<not> isspace c \<Longrightarrow> split_from w (xs @ rest) = split_from (w @ xs) rest"
  by (induction xs arbitrary: w) simp_all

lemma split_two:
  assumes "a \<noteq> []" "b \<noteq> []" "\<forall>c\<in>set a. \<not> isspace c" "\<forall>c\<in>set b. \<not> isspace c"
  shows "split (a @ CHR '' '' # b) = [a, b]"
proof -
  have sp: "isspace CHR '' ''" by (simp add: isspace_def)
  have "split (a @ CHR '' '' # b) = split_from a (CHR '' '' # b)"
    using split_from_word [OF assms(3), of "[]" "CHR '' '' # b"] by (simp add: split_def)
  also have "\<dots> = a # split_from [] (b @ [])"
    using assms(1) sp by simp
  also have "split_from [] (b @ []) = [b]"
    using assms(2) by (simp only: split_from_word [OF assms(4)]) simp
  finally show ?thesis .
qed

lemma strip_id:
  assumes "s \<noteq> []" "\<not> isspace (hd s)" "\<not> isspace (last s)"
  shows "strip s = s"
  using strip_prefix [OF assms, of "[]"] by simp

lemma isdecimal_isdigit: "s \<noteq> [] \<Longrightarrow> list_all isdecimal s \<Longrightarrow> isdigit s"
  by (auto simp: isdigit_def isdigit_char_def list_all_iff)

lemma py_int_decimal:
  "s \<noteq> [] \<Longrightarrow> list_all isdecimal s \<Longrightarrow> length s \<le> max_str_digits \<Longrightarrow>
     py_int s = Inr (int_of_digits s)"
  by (simp add: py_int_def)

lemma py_int_long: "max_str_digits < length s \<Longrightarrow> py_int s = Inl ValueError"
  by (simp add: py_int_def)

lemma dom_player_team_inner:
  "dom (foldl (\<lambda>m' pid. m'(pid \<mapsto> v)) m pids) = dom m \<union> set pids"
  by (induction pids arbitrary: m) auto

lemma dom_player_team_from:
  "dom (foldl (\<lambda>m t. foldl (\<lambda>m' pid. m'(pid \<mapsto> t_id t)) m (team_players t)) m0 teams) =
     dom m0 \<union> (\<Union>t\<in>set teams. set (team_players t))"
  by (induction teams arbitrary: m0) (auto simp: dom_player_team_inner)

lemma player_team_None:
  "player_team teams p = None \<longleftrightarrow> p \<notin> (\<Union>t\<in>set teams. set (team_players t))"
proof -
  have "dom (player_team teams) = (\<Union>t\<in>set teams. set (team_players t))"
    by (simp add: player_team_def dom_player_team_from)
  then have "p \<in> dom (player_team teams) \<longleftrightarrow> p \<in> (\<Union>t\<in>set teams. set (team_players t))"
    by (rule arg_cong)
  then show ?thesis by (simp only: domIff) blast
qed

lemma count_matches_bounds:
  "0 \<le> count_matches ms a b \<and> count_matches ms a b \<le> int (length ms)"
  by (simp add: count_matches_def count_matches_from_pair)

lemma print_count:
  "str_int (count_matches ms a b) =
     (if count_matches ms a b < 10 ^ max_str_digits then Inr (decimal (count_matches ms a b))
      else Inl ValueError)"
  using count_matches_bounds [of ms a b] by (simp add: str_int_limit)

lemma versus_shape:
  assumes "length parts \<noteq> 2 \<or> \<not> list_all isdigit parts" and "split rest = parts"
  shows "versus_query w teams ms rest = ([Stdout ''0''], None)"
  using assms by (auto simp: versus_query_def Let_def)

lemma versus_decimal:
  assumes "split rest = [a, b]" "list_all isdecimal a" "list_all isdecimal b"
    and "length a \<le> max_str_digits" "length b \<le> max_str_digits"
  shows "versus_query w teams ms rest =
     (case players_exist w [int_of_digits a, int_of_digits b] of
        Inl e \<Rightarrow> ([], Some e)
      | Inr False \<Rightarrow> ([Stdout ''0''], None)
      | Inr True \<Rightarrow>
          (case (player_team teams (int_of_digits a), player_team teams (int_of_digits b)) of
             (Some t1, Some t2) \<Rightarrow>
               (if count_matches ms t1 t2 < 10 ^ max_str_digits
                then ([Stdout (decimal (count_matches ms t1 t2))], None)
                else ([], Some ValueError))
           | _ \<Rightarrow> ([Stdout ''0''], None)))"
proof -
  from assms(1) split_nonempty [of a rest] split_nonempty [of b rest]
  have ne: "a \<noteq> []" "b \<noteq> []" by simp_all
  with assms have "isdigit a" "isdigit b" "py_int a = Inr (int_of_digits a)"
    "py_int b = Inr (int_of_digits b)"
    by (simp_all add: isdecimal_isdigit py_int_decimal)
  with assms(1) show ?thesis
    by (simp add: versus_query_def Let_def print_count
          split: sum.splits bool.splits option.splits)
qed

lemma versus_long:
  assumes "split rest = [a, b]" "list_all isdecimal a" "list_all isdecimal b"
    and "max_str_digits < length a \<or> max_str_digits < length b"
  shows "versus_query w teams ms rest = ([], Some ValueError)"
proof -
  from assms(1) split_nonempty [of a rest] split_nonempty [of b rest]
  have ne: "a \<noteq> []" "b \<noteq> []" by simp_all
  with assms have dig: "isdigit a" "isdigit b"
    by (simp_all add: isdecimal_isdigit)
  have "py_int a = Inl ValueError \<or>
      (py_int a = Inr (int_of_digits a) \<and> py_int b = Inl ValueError)"
  proof (cases "max_str_digits < length a")
    case True
    then show ?thesis by (simp add: py_int_long)
  next
    case False
    with assms(4) have "max_str_digits < length b" by simp
    moreover from False ne assms(2) have "py_int a = Inr (int_of_digits a)"
      by (simp add: py_int_decimal)
    ultimately show ?thesis by (simp add: py_int_long)
  qed
  with assms(1) dig show ?thesis
    by (auto simp: versus_query_def Let_def)
qed

lemma players_exist_two:
  "players_exist w [p1, p2] =
     (case get_player w p1 of
        Inl e \<Rightarrow> (if e = HTTPError then Inr False else Inl e)
      | Inr pl \<Rightarrow>
          (case get_player w p2 of
             Inl e \<Rightarrow> (if e = HTTPError then Inr False else Inl e)
           | Inr pl' \<Rightarrow> Inr True))"
  by (simp split: sum.splits exn.splits)

lemma versus_line_decimal:
  assumes "startswith (strip raw) ''versus?''"
    and "split (strip (drop (length ''versus?'') (strip raw))) = [a, b]"
    and "list_all isdecimal a" "list_all isdecimal b"
    and "length a \<le> max_str_digits" "length b \<le> max_str_digits"
  shows "handle_line w teams ms raw =
     (case players_exist w [int_of_digits a, int_of_digits b] of
        Inl e \<Rightarrow> ([], Some e)
      | Inr False \<Rightarrow> ([Stdout ''0''], None)
      | Inr True \<Rightarrow>
          (case (player_team teams (int_of_digits a), player_team teams (int_of_digits b)) of
             (Some t1, Some t2) \<Rightarrow>
               (if count_matches ms t1 t2 < 10 ^ max_str_digits
                then ([Stdout (decimal (count_matches ms t1 t2))], None)
                else ([], Some ValueError))
           | _ \<Rightarrow> ([Stdout ''0''], None)))"
  using handle_line_versus [OF assms(1)] versus_decimal [OF assms(2-6)] by simp

lemma players_exist_http:
  assumes "get_player w p1 = Inl HTTPError \<or>
           (get_player w p1 = Inr pa \<and> get_player w p2 = Inl HTTPError)"
  shows "players_exist w [p1, p2] = Inr False"
  using assms by auto

lemma players_exist_other:
  assumes "get_player w p1 = Inl e \<or> (get_player w p1 = Inr pa \<and> get_player w p2 = Inl e)"
    and "e \<noteq> HTTPError"
  shows "players_exist w [p1, p2] = Inl e"
  using assms by (cases e) auto

lemma players_exist_both:
  assumes "get_player w p1 = Inr pa" "get_player w p2 = Inr pb"
  shows "players_exist w [p1, p2] = Inr True"
  using assms by simp

text \<open>
  C4, as amended. For every \<^verbatim>\<open>versus?\<close> line: when the text after the command does not
  split into exactly two tokens separated by white space, or a token has a character
  that \<^verbatim>\<open>str.isdigit\<close> rejects, the line written is exactly \<^verbatim>\<open>0\<close>. When it splits into
  two tokens of decimal digits, each of at most 4300 digits: if the fetch of the first
  player fails with an HTTP status error, or it succeeds and the fetch of the second
  fails with one, or both succeed and one of the two ids is listed by no team, the line
  written is exactly \<^verbatim>\<open>0\<close>; if both fetches succeed and both ids have a team, the line
  written is the head-to-head count of the two teams (a count below \<open>10 ^ 4300\<close>, as any
  count of matches held in memory is). In each of these cases the loop goes on with the
  next line. A fetch that fails with another exception is not caught: nothing is
  written and the exception leaves the loop. So does the ValueError of \<^verbatim>\<open>int\<close> when a
  token of decimal digits has more than 4300 of them.
\<close>

theorem versus_query_output:
  assumes "startswith (strip raw) ''versus?''"
    and "parts = split (strip (drop (length ''versus?'') (strip raw)))"
  shows "(length parts \<noteq> 2 \<or> \<not> list_all isdigit parts \<longrightarrow>
            handle_line w teams ms raw = ([Stdout ''0''], None))
    \<and> (parts = [a, b] \<and> list_all isdecimal a \<and> list_all isdecimal b \<and>
        length a \<le> max_str_digits \<and> length b \<le> max_str_digits \<longrightarrow>
          (get_player w (int_of_digits a) = Inl HTTPError \<longrightarrow>
             handle_line w teams ms raw = ([Stdout ''0''], None))
        \<and> (get_player w (int_of_digits a) = Inr pa \<and>
             get_player w (int_of_digits b) = Inl HTTPError \<longrightarrow>
             handle_line w teams ms raw = ([Stdout ''0''], None))
        \<and> (get_player w (int_of_digits a) = Inr pa \<and> get_player w (int_of_digits b) = Inr pb \<and>
             (int_of_digits a \<notin> (\<Union>t\<in>set teams. set (team_players t)) \<or>
              int_of_digits b \<notin> (\<Union>t\<in>set teams. set (team_players t))) \<longrightarrow>
             handle_line w teams ms raw = ([Stdout ''0''], None))
        \<and> (get_player w (int_of_digits a) = Inr pa \<and> get_player w (int_of_digits b) = Inr pb \<and>
             player_team teams (int_of_digits a) = Some t1 \<and>
             player_team teams (int_of_digits b) = Some t2 \<and>
             count_matches ms t1 t2 < 10 ^ max_str_digits \<longrightarrow>
             handle_line w teams ms raw = ([Stdout (decimal (count_matches ms t1 t2))], None))
        \<and> (get_player w (int_of_digits a) = Inl e \<and> e \<noteq> HTTPError \<longrightarrow>
             handle_line w teams ms raw = ([], Some e) \<and>
             handle_queries w teams ms (raw # lines) = ([], Some e))
        \<and> (get_player w (int_of_digits a) = Inr pa \<and>
             get_player w (int_of_digits b) = Inl e \<and> e \<noteq> HTTPError \<longrightarrow>
             handle_line w teams ms raw = ([], Some e) \<and>
             handle_queries w teams ms (raw # lines) = ([], Some e)))
    \<and> (parts = [a, b] \<and> list_all isdecimal a \<and> list_all isdecimal b \<and>
        (max_str_digits < length a \<or> max_str_digits < length b) \<longrightarrow>
          handle_line w teams ms raw = ([], Some ValueError) \<and>
          handle_queries w teams ms (raw # lines) = ([], Some ValueError))
    \<and> (snd (handle_line w teams ms raw) = None \<longrightarrow>
          handle_queries w teams ms (raw # lines) =
            (fst (handle_line w teams ms raw) @ fst (handle_queries w teams ms lines),
             snd (handle_queries w teams ms lines)))"
proof -
  let ?rest = "strip (drop (length ''versus?'') (strip raw))"
  have line: "handle_line w teams ms raw = versus_query w teams ms ?rest"
    using assms(1) by (rule handle_line_versus)
  have c1: "length parts \<noteq> 2 \<or> \<not> list_all isdigit parts \<longrightarrow>
            handle_line w teams ms raw = ([Stdout ''0''], None)"
  proof
    assume "length parts \<noteq> 2 \<or> \<not> list_all isdigit parts"
    with assms(2) line versus_shape [of parts ?rest]
    show "handle_line w teams ms raw = ([Stdout ''0''], None)" by simp
  qed
  have c2: "parts = [a, b] \<and> list_all isdecimal a \<and> list_all isdecimal b \<and>
        length a \<le> max_str_digits \<and> length b \<le> max_str_digits \<longrightarrow>
          (get_player w (int_of_digits a) = Inl HTTPError \<longrightarrow>
             handle_line w teams ms raw = ([Stdout ''0''], None))
        \<and> (get_player w (int_of_digits a) = Inr pa \<and>
             get_player w (int_of_digits b) = Inl HTTPError \<longrightarrow>
             handle_line w teams ms raw = ([Stdout ''0''], None))
        \<and> (get_player w (int_of_digits a) = Inr pa \<and> get_player w (int_of_digits b) = Inr pb \<and>
             (int_of_digits a \<notin> (\<Union>t\<in>set teams. set (team_players t)) \<or>
              int_of_digits b \<notin> (\<Union>t\<in>set teams. set (team_players t))) \<longrightarrow>
             handle_line w teams ms raw = ([Stdout ''0''], None))
        \<and> (get_player w (int_of_digits a) = Inr pa \<and> get_player w (int_of_digits b) = Inr pb \<and>
             player_team teams (int_of_digits a) = Some t1 \<and>
             player_team teams (int_of_digits b) = Some t2 \<and>
             count_matches ms t1 t2 < 10 ^ max_str_digits \<longrightarrow>
             handle_line w teams ms raw = ([Stdout (decimal (count_matches ms t1 t2))], None))
        \<and> (get_player w (int_of_digits a) = Inl e \<and> e \<noteq> HTTPError \<longrightarrow>
             handle_line w teams ms raw = ([], Some e) \<and>
             handle_queries w teams ms (raw # lines) = ([], Some e))
        \<and> (get_player w (int_of_digits a) = Inr pa \<and>
             get_player w (int_of_digits b) = Inl e \<and> e \<noteq> HTTPError \<longrightarrow>
             handle_line w teams ms raw = ([], Some e) \<and>
             handle_queries w teams ms (raw # lines) = ([], Some e))"
  proof (intro impI, elim conjE)
    assume p: "parts = [a, b]" "list_all isdecimal a" "list_all isdecimal b"
      "length a \<le> max_str_digits" "length b \<le> max_str_digits"
    from p(1) assms(2) have sp: "split ?rest = [a, b]" by simp
    note dec = versus_line_decimal [OF assms(1) sp p(2-5), of w teams ms]
    have first: "get_player w (int_of_digits a) = Inl HTTPError \<longrightarrow>
             handle_line w teams ms raw = ([Stdout ''0''], None)"
    proof
      assume "get_player w (int_of_digits a) = Inl HTTPError"
      then have "players_exist w [int_of_digits a, int_of_digits b] = Inr False"
        by (simp add: players_exist_http)
      from dec [unfolded this] show "handle_line w teams ms raw = ([Stdout ''0''], None)"
        by simp
    qed
    have second: "get_player w (int_of_digits a) = Inr pa \<and>
             get_player w (int_of_digits b) = Inl HTTPError \<longrightarrow>
             handle_line w teams ms raw = ([Stdout ''0''], None)"
    proof
      assume "get_player w (int_of_digits a) = Inr pa \<and>
             get_player w (int_of_digits b) = Inl HTTPError"
      then have "players_exist w [int_of_digits a, int_of_digits b] = Inr False"
        by (simp add: players_exist_http)
      from dec [unfolded this] show "handle_line w teams ms raw = ([Stdout ''0''], None)"
        by simp
    qed
    have unmapped: "get_player w (int_of_digits a) = Inr pa \<and>
             get_player w (int_of_digits b) = Inr pb \<and>
             (int_of_digits a \<notin> (\<Union>t\<in>set teams. set (team_players t)) \<or>
              int_of_digits b \<notin> (\<Union>t\<in>set teams. set (team_players t))) \<longrightarrow>
             handle_line w teams ms raw = ([Stdout ''0''], None)"
    proof (intro impI, elim conjE)
      assume f: "get_player w (int_of_digits a) = Inr pa" "get_player w (int_of_digits b) = Inr pb"
        and "int_of_digits a \<notin> (\<Union>t\<in>set teams. set (team_players t)) \<or>
              int_of_digits b \<notin> (\<Union>t\<in>set teams. set (team_players t))"
      then have none: "player_team teams (int_of_digits a) = None \<or>
          player_team teams (int_of_digits b) = None"
        by (simp only: player_team_None)
      from dec [unfolded players_exist_both [OF f]] none
      show "handle_line w teams ms raw = ([Stdout ''0''], None)"
        by (auto split: option.splits)
    qed
    have mapped: "get_player w (int_of_digits a) = Inr pa \<and>
             get_player w (int_of_digits b) = Inr pb \<and>
             player_team teams (int_of_digits a) = Some t1 \<and>
             player_team teams (int_of_digits b) = Some t2 \<and>
             count_matches ms t1 t2 < 10 ^ max_str_digits \<longrightarrow>
             handle_line w teams ms raw = ([Stdout (decimal (count_matches ms t1 t2))], None)"
    proof (intro impI, elim conjE)
      assume f: "get_player w (int_of_digits a) = Inr pa" "get_player w (int_of_digits b) = Inr pb"
        and t: "player_team teams (int_of_digits a) = Some t1"
          "player_team teams (int_of_digits b) = Some t2"
          "count_matches ms t1 t2 < 10 ^ max_str_digits"
      from dec [unfolded players_exist_both [OF f]] t
      show "handle_line w teams ms raw = ([Stdout (decimal (count_matches ms t1 t2))], None)"
        by simp
    qed
    have escape1: "get_player w (int_of_digits a) = Inl e \<and> e \<noteq> HTTPError \<longrightarrow>
             handle_line w teams ms raw = ([], Some e) \<and>
             handle_queries w teams ms (raw # lines) = ([], Some e)"
    proof (intro impI, elim conjE)
      assume "get_player w (int_of_digits a) = Inl e" "e \<noteq> HTTPError"
      then have "players_exist w [int_of_digits a, int_of_digits b] = Inl e"
        using players_exist_other [of w "int_of_digits a" e pa "int_of_digits b"] by blast
      from dec [unfolded this] have "handle_line w teams ms raw = ([], Some e)" by simp
      then show "handle_line w teams ms raw = ([], Some e) \<and>
             handle_queries w teams ms (raw # lines) = ([], Some e)"
        by (simp add: handle_queries_raise)
    qed
    have escape2: "get_player w (int_of_digits a) = Inr pa \<and>
             get_player w (int_of_digits b) = Inl e \<and> e \<noteq> HTTPError \<longrightarrow>
             handle_line w teams ms raw = ([], Some e) \<and>
             handle_queries w teams ms (raw # lines) = ([], Some e)"
    proof (intro impI, elim conjE)
      assume "get_player w (int_of_digits a) = Inr pa" "get_player w (int_of_digits b) = Inl e"
        "e \<noteq> HTTPError"
      then have "players_exist w [int_of_digits a, int_of_digits b] = Inl e"
        using players_exist_other [of w "int_of_digits a" e pa "int_of_digits b"] by blast
      from dec [unfolded this] have "handle_line w teams ms raw = ([], Some e)" by simp
      then show "handle_line w teams ms raw = ([], Some e) \<and>
             handle_queries w teams ms (raw # lines) = ([], Some e)"
        by (simp add: handle_queries_raise)
    qed
    from first second unmapped mapped escape1 escape2
    show "(get_player w (int_of_digits a) = Inl HTTPError \<longrightarrow>
             handle_line w teams ms raw = ([Stdout ''0''], None))
        \<and> (get_player w (int_of_digits a) = Inr pa \<and>
             get_player w (int_of_digits b) = Inl HTTPError \<longrightarrow>
             handle_line w teams ms raw = ([Stdout ''0''], None))
        \<and> (get_player w (int_of_digits a) = Inr pa \<and> get_player w (int_of_digits b) = Inr pb \<and>
             (int_of_digits a \<notin> (\<Union>t\<in>set teams. set (team_players t)) \<or>
              int_of_digits b \<notin> (\<Union>t\<in>set teams. set (team_players t))) \<longrightarrow>
             handle_line w teams ms raw = ([Stdout ''0''], None))
        \<and> (get_player w (int_of_digits a) = Inr pa \<and> get_player w (int_of_digits b) = Inr pb \<and>
             player_team teams (int_of_digits a) = Some t1 \<and>
             player_team teams (int_of_digits b) = Some t2 \<and>
             count_matches ms t1 t2 < 10 ^ max_str_digits \<longrightarrow>
             handle_line w teams ms raw = ([Stdout (decimal (count_matches ms t1 t2))], None))
        \<and> (get_player w (int_of_digits a) = Inl e \<and> e \<noteq> HTTPError \<longrightarrow>
             handle_line w teams ms raw = ([], Some e) \<and>
             handle_queries w teams ms (raw # lines) = ([], Some e))
        \<and> (get_player w (int_of_digits a) = Inr pa \<and>
             get_player w (int_of_digits b) = Inl e \<and> e \<noteq> HTTPError \<longrightarrow>
             handle_line w teams ms raw = ([], Some e) \<and>
             handle_queries w teams ms (raw # lines) = ([], Some e))"
      by (intro conjI)
  qed
  have c3: "parts = [a, b] \<and> list_all isdecimal a \<and> list_all isdecimal b \<and>
        (max_str_digits < length a \<or> max_str_digits < length b) \<longrightarrow>
          handle_line w teams ms raw = ([], Some ValueError) \<and>
          handle_queries w teams ms (raw # lines) = ([], Some ValueError)"
  proof (intro impI, elim conjE)
    assume p: "parts = [a, b]" "list_all isdecimal a" "list_all isdecimal b"
      "max_str_digits < length a \<or> max_str_digits < length b"
    from p(1) assms(2) have sp: "split ?rest = [a, b]" by simp
    from line versus_long [OF sp p(2-4), of w teams ms]
    have "handle_line w teams ms raw = ([], Some ValueError)" by simp
    then show "handle_line w teams ms raw = ([], Some ValueError) \<and>
          handle_queries w teams ms (raw # lines) = ([], Some ValueError)"
      by (simp add: handle_queries_raise)
  qed
  have c4: "snd (handle_line w teams ms raw) = None \<longrightarrow>
          handle_queries w teams ms (raw # lines) =
            (fst (handle_line w teams ms raw) @ fst (handle_queries w teams ms lines),
             snd (handle_queries w teams ms lines))"
  proof
    assume "snd (handle_line w teams ms raw) = None"
    then show "handle_queries w teams ms (raw # lines) =
            (fst (handle_line w teams ms raw) @ fst (handle_queries w teams ms lines),
             snd (handle_queries w teams ms lines))"
      using handle_queries_continue [of w teams ms raw "fst (handle_line w teams ms raw)" lines]
      by (cases "handle_line w teams ms raw") simp
  qed
  from c1 c2 c3 c4 show ?thesis by (intro conjI)
qed

theorem versus_query_output_witness:
  "startswith (strip ''versus? 10 11'') ''versus?''
   \<and> split (strip (drop (length ''versus?'') (strip ''versus? 10 11''))) = [''10'', ''11'']
   \<and> list_all isdecimal ''10'' \<and> list_all isdecimal ''11''
   \<and> handle_line
         \<lparr>get_matches = Inr [], get_teams = Inr [],
          get_player = (\<lambda>pid. if pid = 10 \<or> pid = 11 then Inr \<lparr>p_name = None, p_surname = None\<rparr>
                              else Inl HTTPError)\<rparr>
         [\<lparr>t_id = 1, t_name = ''Falcons'', t_players = Some [10]\<rparr>,
          \<lparr>t_id = 2, t_name = ''Hawks'', t_players = Some [11]\<rparr>]
         [\<lparr>team1 = 1, team2 = 2, team1_score = 3, team2_score = 1\<rparr>,
          \<lparr>team1 = 2, team2 = 1, team1_score = 0, team2_score = 0\<rparr>]
         ''versus? 10 11'' = ([Stdout ''2''], None)
   \<and> startswith (strip ''versus? 10 999'') ''versus?''
   \<and> split (strip (drop (length ''versus?'') (strip ''versus? 10 999''))) = [''10'', ''999'']
   \<and> list_all isdecimal ''999''
   \<and> handle_queries
         \<lparr>get_matches = Inr [], get_teams = Inr [],
          get_player = (\<lambda>pid. if pid = 10 \<or> pid = 11 then Inr \<lparr>p_name = None, p_surname = None\<rparr>
                              else Inl HTTPError)\<rparr>
         [\<lparr>t_id = 1, t_name = ''Falcons'', t_players = Some [10]\<rparr>,
          \<lparr>t_id = 2, t_name = ''Hawks'', t_players = Some [11]\<rparr>]
         [\<lparr>team1 = 1, team2 = 2, team1_score = 3, team2_score = 1\<rparr>,
          \<lparr>team1 = 2, team2 = 1, team1_score = 0, team2_score = 0\<rparr>]
         [''versus? 10 999'', ''versus? 10 11''] = ([Stdout ''0'', Stdout ''2''], None)
   \<and> split (strip (drop (length ''versus?'')
          (strip (''versus? 10 '' @ replicate (Suc max_str_digits) CHR ''0'')))) =
       [''10'', replicate (Suc max_str_digits) CHR ''0'']
   \<and> max_str_digits < length (replicate (Suc max_str_digits) CHR ''0'')
   \<and> handle_line
         \<lparr>get_matches = Inr [], get_teams = Inr [],
          get_player = (\<lambda>pid. if pid = 10 \<or> pid = 11 then Inr \<lparr>p_name = None, p_surname = None\<rparr>
                              else Inl HTTPError)\<rparr>
         [\<lparr>t_id = 1, t_name = ''Falcons'', t_players = Some [10]\<rparr>,
          \<lparr>t_id = 2, t_name = ''Hawks'', t_players = Some [11]\<rparr>]
         [\<lparr>team1 = 1, team2 = 2, team1_score = 3, team2_score = 1\<rparr>,
          \<lparr>team1 = 2, team2 = 1, team1_score = 0, team2_score = 0\<rparr>]
         (''versus? 10 '' @ replicate (Suc max_str_digits) CHR ''0'') = ([], Some ValueError)"
proof -
  let ?w = "\<lparr>get_matches = Inr [], get_teams = Inr [],
          get_player = (\<lambda>pid. if pid = 10 \<or> pid = 11 then Inr \<lparr>p_name = None, p_surname = None\<rparr>
                              else Inl HTTPError)\<rparr>"
  let ?teams = "[\<lparr>t_id = 1, t_name = ''Falcons'', t_players = Some [10]\<rparr>,
          \<lparr>t_id = 2, t_name = ''Hawks'', t_players = Some [11]\<rparr>]"
  let ?ms = "[\<lparr>team1 = 1, team2 = 2, team1_score = 3, team2_score = 1\<rparr>,
          \<lparr>team1 = 2, team2 = 1, team1_score = 0, team2_score = 0\<rparr>]"
  let ?z = "replicate (Suc max_str_digits) CHR ''0''"
  let ?long = "''versus? 10 '' @ ?z"
  have a: "startswith (strip ''versus? 10 11'') ''versus?''"
    "split (strip (drop (length ''versus?'') (strip ''versus? 10 11''))) = [''10'', ''11'']"
    "list_all isdecimal ''10''" "list_all isdecimal ''11''"
    "length ''10'' \<le> max_str_digits" "length ''11'' \<le> max_str_digits"
    by code_simp+
  have b: "startswith (strip ''versus? 10 999'') ''versus?''"
    "split (strip (drop (length ''versus?'') (strip ''versus? 10 999''))) = [''10'', ''999'']"
    "list_all isdecimal ''999''" "length ''999'' \<le> max_str_digits"
    by code_simp+
  have f: "get_player ?w (int_of_digits ''10'') = Inr \<lparr>p_name = None, p_surname = None\<rparr>"
    "get_player ?w (int_of_digits ''11'') = Inr \<lparr>p_name = None, p_surname = None\<rparr>"
    "get_player ?w (int_of_digits ''999'') = Inl HTTPError"
    by code_simp+
  have t: "player_team ?teams (int_of_digits ''10'') = Some 1"
    "player_team ?teams (int_of_digits ''11'') = Some 2"
    by code_simp+
  have c: "count_matches ?ms 1 2 = 2" "decimal 2 = ''2''"
    by code_simp+
  have small: "(2::int) < 10 ^ max_str_digits"
    by (simp add: small_below_limit)
  from versus_query_output [OF a(1) a(2) [symmetric], where a = "''10''" and b = "''11''"
      and w = ?w and teams = ?teams
      and pa = "\<lparr>p_name = None, p_surname = None\<rparr>" and pb = "\<lparr>p_name = None, p_surname = None\<rparr>"
      and ?t1.0 = 1 and ?t2.0 = 2 and ms = ?ms] a(3-6) f(1,2) t c small
  have 1: "handle_line ?w ?teams ?ms ''versus? 10 11'' = ([Stdout ''2''], None)"
    by simp
  note v = versus_query_output [OF b(1) b(2) [symmetric], where a = "''10''" and b = "''999''"
      and w = ?w and teams = ?teams
      and pa = "\<lparr>p_name = None, p_surname = None\<rparr>"
      and ms = ?ms and lines = "[''versus? 10 11'']"]
  from v a(3,5) b(3,4) f(1,3)
  have 2: "handle_line ?w ?teams ?ms ''versus? 10 999'' = ([Stdout ''0''], None)"
    by simp
  have 3: "handle_queries ?w ?teams ?ms [''versus? 10 11''] = ([Stdout ''2''], None)"
    using 1 by simp
  from v 2 3
  have 4: "handle_queries ?w ?teams ?ms [''versus? 10 999'', ''versus? 10 11''] =
      ([Stdout ''0'', Stdout ''2''], None)"
    by simp
  have sp: "\<not> isspace CHR ''v''" "\<not> isspace CHR ''0''" "\<not> isspace CHR ''1''" "isspace CHR '' ''"
    by (simp_all add: isspace_def)
  have whole: "strip ?long = ?long"
    by (rule strip_id) (simp_all add: sp)
  then have p: "startswith (strip ?long) ''versus?''"
    by (simp add: startswith_def)
  have "strip (''10'' @ CHR '' '' # ?z) = ''10'' @ CHR '' '' # ?z"
    by (rule strip_id) (simp_all add: sp)
  with whole have rest: "strip (drop (length ''versus?'') (strip ?long)) = ''10'' @ CHR '' '' # ?z"
    by (simp add: strip_space_Cons sp)
  have parts: "split (strip (drop (length ''versus?'') (strip ?long))) = [''10'', ?z]"
    unfolding rest by (rule split_two) (simp_all add: sp)
  have long: "list_all isdecimal ?z" "max_str_digits < length ?z"
    by (simp_all add: isdecimal_def list_all_iff)
  from versus_query_output [OF p parts [symmetric], where a = "''10''" and b = ?z
      and w = ?w and teams = ?teams and ms = ?ms] a(3) long
  have 5: "handle_line ?w ?teams ?ms ?long = ([], Some ValueError)"
    by simp
  from a(1-4) b(1-3) 1 4 parts long(2) 5 show ?thesis by (intro conjI)
qed

text \<open>
  C4 as stated fails where a fetch fails otherwise than with an HTTP status error: the
  exception is not caught, no \<^verbatim>\<open>0\<close> is written and the loop does not reach the next
  line.
\<close>

theorem versus_query_counterexample:
  "get_player
         \<lparr>get_matches = Inr [], get_teams = Inr [],
          get_player = (\<lambda>pid. if pid = 10 then Inr \<lparr>p_name = None, p_surname = None\<rparr>
                              else Inl ConnectionError)\<rparr> 11 = Inl ConnectionError
   \<and> handle_line
         \<lparr>get_matches = Inr [], get_teams = Inr [],
          get_player = (\<lambda>pid. if pid = 10 then Inr \<lparr>p_name = None, p_surname = None\<rparr>
                              else Inl ConnectionError)\<rparr>
         [\<lparr>t_id = 1, t_name = ''Falcons'', t_players = Some [10]\<rparr>,
          \<lparr>t_id = 2, t_name = ''Hawks'', t_players = Some [11]\<rparr>]
         [\<lparr>team1 = 1, team2 = 2, team1_score = 3, team2_score = 1\<rparr>,
          \<lparr>team1 = 2, team2 = 1, team1_score = 0, team2_score = 0\<rparr>]
         ''versus? 10 11'' = ([], Some ConnectionError)
   \<and> handle_queries
         \<lparr>get_matches = Inr [], get_teams = Inr [],
          get_player = (\<lambda>pid. if pid = 10 then Inr \<lparr>p_name = None, p_surname = None\<rparr>
                              else Inl ConnectionError)\<rparr>
         [\<lparr>t_id = 1, t_name = ''Falcons'', t_players = Some [10]\<rparr>,
          \<lparr>t_id = 2, t_name = ''Hawks'', t_players = Some [11]\<rparr>]
         [\<lparr>team1 = 1, team2 = 2, team1_score = 3, team2_score = 1\<rparr>,
          \<lparr>team1 = 2, team2 = 1, team1_score = 0, team2_score = 0\<rparr>]
         [''versus? 10 11'', ''stats? Falcons''] = ([], Some ConnectionError)"
  by code_simp

text \<open>
  A token of superscript digits passes \<^verbatim>\<open>isdigit\<close> and then fails in \<^verbatim>\<open>int\<close>: the
  ValueError leaves the loop. (The character \<open>0xB2\<close> is the superscript two.)
\<close>

lemma versus_superscript_digit:
  "isdigit [CHR 0xB2] \<and> py_int [CHR 0xB2] = Inl ValueError
   \<and> handle_line
         \<lparr>get_matches = Inr [], get_teams = Inr [],
          get_player = (\<lambda>pid. Inr \<lparr>p_name = None, p_surname = None\<rparr>)\<rparr>
         [\<lparr>t_id = 1, t_name = ''Falcons'', t_players = Some [10]\<rparr>,
          \<lparr>t_id = 2, t_name = ''Hawks'', t_players = Some [11]\<rparr>]
         [\<lparr>team1 = 1, team2 = 2, team1_score = 3, team2_score = 1\<rparr>,
          \<lparr>team1 = 2, team2 = 1, team1_score = 0, team2_score = 0\<rparr>]
         (''versus? '' @ [CHR 0xB2] @ '' 1'') = ([], Some ValueError)"
  by code_simp

section \<open>Properties of the roster and of the failures\<close>

lemma fetch_names_skip:
  "get_player w pid = Inl HTTPError \<Longrightarrow> fetch_names w (pid # pids) names = fetch_names w pids names"
  by simp

lemma fetch_names_ok:
  "\<forall>pid\<in>set pids. \<forall>e. get_player w pid = Inl e \<longrightarrow> e = HTTPError \<Longrightarrow>
     \<exists>ns. fetch_names w pids names = Inr ns"
  by (induction pids arbitrary: names) (auto simp: Let_def split: sum.splits exn.splits)

lemma fetch_names_result:
  "fetch_names w pids names = Inr ns \<Longrightarrow>
     set ns = set names \<union>
       {full_name pl | pid pl. pid \<in> set pids \<and> get_player w pid = Inr pl \<and> full_name pl \<noteq> []}"
proof (induction pids arbitrary: names)
  case Nil
  then show ?case by simp
next
  case (Cons pid pids)
  show ?case
  proof (cases "get_player w pid")
    case (Inl e)
    with Cons.prems have e: "e = HTTPError" and "fetch_names w pids names = Inr ns"
      by (cases e; simp)+
    from Cons.IH [OF this(2)] Inl show ?thesis by auto
  next
    case (Inr pl)
    show ?thesis
    proof (cases "full_name pl = []")
      case True
      with Inr Cons.prems have "fetch_names w pids names = Inr ns" by simp
      from Cons.IH [OF this] Inr True show ?thesis by auto
    next
      case False
      with Inr Cons.prems have "fetch_names w pids (names @ [full_name pl]) = Inr ns" by simp
      from Cons.IH [OF this] Inr False show ?thesis by auto
    qed
  qed
qed

lemma fetch_names_raise:
  "fetch_names w pids names = Inl e \<Longrightarrow>
     e \<noteq> HTTPError \<and> (\<exists>pid\<in>set pids. get_player w pid = Inl e)"
  by (induction pids arbitrary: names)
     (auto simp: Let_def split: sum.splits exn.splits if_splits)

lemma fetch_names_fail:
  "pid \<in> set pids \<Longrightarrow> get_player w pid = Inl e \<Longrightarrow> e \<noteq> HTTPError \<Longrightarrow>
     \<exists>e'. e' \<noteq> HTTPError \<and> fetch_names w pids names = Inl e'"
proof (induction pids arbitrary: names)
  case Nil
  then show ?case by simp
next
  case (Cons p pids)
  show ?case
  proof (cases "get_player w p")
    case (Inl e0)
    show ?thesis
    proof (cases "e0 = HTTPError")
      case True
      with Inl Cons.prems have "pid \<in> set pids" by auto
      from Cons.IH [OF this Cons.prems(2,3)] Inl True show ?thesis by simp
    next
      case False
      with Inl have "fetch_names w (p # pids) names = Inl e0" by (cases e0) simp_all
      with False show ?thesis by blast
    qed
  next
    case (Inr pl)
    with Cons.prems have "pid \<in> set pids" by auto
    from Cons.IH [OF this Cons.prems(2,3)] Inr show ?thesis by (simp add: Let_def)
  qed
qed

lemma fetch_names_set:
  assumes "set xs = set ys"
  shows "(\<exists>e. fetch_names w xs [] = Inl e) \<longleftrightarrow> (\<exists>e. fetch_names w ys [] = Inl e)"
    and "fetch_names w xs [] = Inr ns \<Longrightarrow> fetch_names w ys [] = Inr ms \<Longrightarrow>
           sort (remdups ns) = sort (remdups ms)"
proof -
  show "(\<exists>e. fetch_names w xs [] = Inl e) \<longleftrightarrow> (\<exists>e. fetch_names w ys [] = Inl e)"
    using assms fetch_names_raise [of w xs "[]"] fetch_names_raise [of w ys "[]"]
      fetch_names_fail [of _ xs w _ "[]"] fetch_names_fail [of _ ys w _ "[]"]
    by metis
  assume "fetch_names w xs [] = Inr ns" "fetch_names w ys [] = Inr ms"
  with assms have "set ns = set ms"
    by (simp add: fetch_names_result)
  then have "set (remdups ns) = set (remdups ms)" by simp
  then show "sort (remdups ns) = sort (remdups ms)"
    by (metis distinct_remdups sorted_list_of_set_sort_remdups sorted_list_of_set.idem_if_sorted_distinct remdups_id_iff_distinct)
qed

lemma full_name_parts:
  "full_name pl =
     (let n = strip (case p_name pl of None \<Rightarrow> [] | Some x \<Rightarrow> x);
          s = strip (case p_surname pl of None \<Rightarrow> [] | Some x \<Rightarrow> x)
      in if n = [] then s else if s = [] then n else n @ '' '' @ s)"
  by (simp add: full_name_def join_def Let_def)


lemma list_players_ok:
  assumes "get_teams w = Inr teams"
    and "\<forall>pid\<in>set (player_ids teams). \<forall>e. get_player w pid = Inl e \<longrightarrow> e = HTTPError"
  shows "\<exists>names. list_players w = Inr (map Stdout names, teams) \<and>
           sorted names \<and> distinct names \<and> [] \<notin> set names \<and>
           set names = {full_name pl | pid pl. pid \<in> (\<Union>t\<in>set teams. set (team_players t)) \<and>
                          get_player w pid = Inr pl \<and> full_name pl \<noteq> []}"
proof -
  from fetch_names_ok [OF assms(2), of "[]"] obtain ns
    where ns: "fetch_names w (player_ids teams) [] = Inr ns" ..
  have ids: "set (player_ids teams) = (\<Union>t\<in>set teams. set (team_players t))"
    by (simp add: player_ids_def)
  from fetch_names_result [OF ns] ids
  have set: "set ns = {full_name pl | pid pl. pid \<in> (\<Union>t\<in>set teams. set (team_players t)) \<and>
                          get_player w pid = Inr pl \<and> full_name pl \<noteq> []}"
    by simp
  let ?names = "sort (remdups ns)"
  from assms(1) ns have "list_players w = Inr (map Stdout ?names, teams)"
    by (simp add: list_players_def)
  moreover have "sorted ?names" "distinct ?names" by simp_all
  moreover from set have "[] \<notin> set ?names" by auto
  moreover from set have "set ?names = {full_name pl | pid pl.
      pid \<in> (\<Union>t\<in>set teams. set (team_players t)) \<and> get_player w pid = Inr pl \<and> full_name pl \<noteq> []}"
    by simp
  ultimately show ?thesis by blast
qed


lemma main_started:
  assumes "usable_token arg env = Some tok" "tok \<noteq> []" "get_matches w = Inr ms"
  shows "main arg env w stdin =
     (case list_players w of
        Inl e \<Rightarrow> ([StderrExn ''Failed to list players: '' e], Exited 1)
      | Inr (names, teams) \<Rightarrow>
          (names @ fst (handle_queries w teams ms stdin),
           case snd (handle_queries w teams ms stdin) of
             None \<Rightarrow> Exited 0 | Some e \<Rightarrow> Uncaught e))"
  using assms by (simp add: main_def split: sum.splits prod.splits option.splits)

text \<open>
  C5. When the start-up succeeds (a token is given, the matches and the teams are
  fetched, and no fetch of a listed player fails otherwise than with an HTTP status
  error), the program first writes the roster, one name per \<^verbatim>\<open>print\<close>, and only then
  what the query lines produce. The roster is sorted ascending in the order of the code
  points and has no duplicate; it consists of the non-empty full names of the players
  that the teams list and whose fetch succeeds. The full name is the stripped name, a
  single space, and the stripped surname, an empty part being left out with the space.
\<close>

theorem roster_output:
  assumes "usable_token arg env = Some tok" "tok \<noteq> []" "get_matches w = Inr ms"
    and "get_teams w = Inr teams"
    and "\<forall>pid\<in>set (player_ids teams). \<forall>e. get_player w pid = Inl e \<longrightarrow> e = HTTPError"
  shows "\<exists>names.
      main arg env w stdin =
        (map Stdout names @ fst (handle_queries w teams ms stdin),
         case snd (handle_queries w teams ms stdin) of
           None \<Rightarrow> Exited 0 | Some e \<Rightarrow> Uncaught e)
    \<and> sorted names \<and> distinct names \<and> [] \<notin> set names
    \<and> set names = {full_name pl | pid pl. pid \<in> (\<Union>t\<in>set teams. set (team_players t)) \<and>
                      get_player w pid = Inr pl \<and> full_name pl \<noteq> []}
    \<and> (\<forall>pl. full_name pl =
          (let n = strip (case p_name pl of None \<Rightarrow> [] | Some x \<Rightarrow> x);
               s = strip (case p_surname pl of None \<Rightarrow> [] | Some x \<Rightarrow> x)
           in if n = [] then s else if s = [] then n else n @ '' '' @ s))"
proof -
  from list_players_ok [OF assms(4,5)] obtain names
    where lp: "list_players w = Inr (map Stdout names, teams)"
      and props: "sorted names" "distinct names" "[] \<notin> set names"
        "set names = {full_name pl | pid pl. pid \<in> (\<Union>t\<in>set teams. set (team_players t)) \<and>
                      get_player w pid = Inr pl \<and> full_name pl \<noteq> []}"
    by blast
  from main_started [OF assms(1-3), of stdin] lp
  have "main arg env w stdin =
        (map Stdout names @ fst (handle_queries w teams ms stdin),
         case snd (handle_queries w teams ms stdin) of
           None \<Rightarrow> Exited 0 | Some e \<Rightarrow> Uncaught e)"
    by simp
  with props full_name_parts show ?thesis by blast
qed


theorem roster_output_witness:
  "main (Some ''secret'') None
       \<lparr>get_matches = Inr [\<lparr>team1 = 1, team2 = 2, team1_score = 3, team2_score = 1\<rparr>],
        get_teams = Inr [\<lparr>t_id = 1, t_name = ''Falcons'', t_players = Some [10, 11, 12]\<rparr>,
                         \<lparr>t_id = 2, t_name = ''Hawks'', t_players = Some [11, 13, 14]\<rparr>],
        get_player = (\<lambda>pid.
          if pid = 10 then Inr \<lparr>p_name = Some ''  Bob '', p_surname = Some ''Lee''\<rparr>
          else if pid = 11 then Inr \<lparr>p_name = Some ''Al'', p_surname = None\<rparr>
          else if pid = 13 then Inr \<lparr>p_name = Some [], p_surname = Some ''  ''\<rparr>
          else if pid = 14 then Inr \<lparr>p_name = None, p_surname = Some ''Al ''\<rparr>
          else Inl HTTPError)\<rparr>
       [''stats? Falcons''] =
     ([Stdout ''Al'', Stdout ''Bob Lee'', Stdout ''1 0 +2''], Exited 0)
   \<and> sorted [''Al'', ''Bob Lee''] \<and> distinct [''Al'', ''Bob Lee'']
   \<and> [] \<notin> set [''Al'', ''Bob Lee'']"
proof -
  let ?w = "\<lparr>get_matches = Inr [\<lparr>team1 = 1, team2 = 2, team1_score = 3, team2_score = 1\<rparr>],
        get_teams = Inr [\<lparr>t_id = 1, t_name = ''Falcons'', t_players = Some [10, 11, 12]\<rparr>,
                         \<lparr>t_id = 2, t_name = ''Hawks'', t_players = Some [11, 13, 14]\<rparr>],
        get_player = (\<lambda>pid.
          if pid = 10 then Inr \<lparr>p_name = Some ''  Bob '', p_surname = Some ''Lee''\<rparr>
          else if pid = 11 then Inr \<lparr>p_name = Some ''Al'', p_surname = None\<rparr>
          else if pid = 13 then Inr \<lparr>p_name = Some [], p_surname = Some ''  ''\<rparr>
          else if pid = 14 then Inr \<lparr>p_name = None, p_surname = Some ''Al ''\<rparr>
          else Inl HTTPError)\<rparr>"
  let ?teams = "[\<lparr>t_id = 1, t_name = ''Falcons'', t_players = Some [10, 11, 12]\<rparr>,
        \<lparr>t_id = 2, t_name = ''Hawks'', t_players = Some [11, 13, 14]\<rparr>]"
  let ?ms = "[\<lparr>team1 = 1, team2 = 2, team1_score = 3, team2_score = 1\<rparr>]"
  have h: "usable_token (Some ''secret'') None = Some ''secret''" "''secret'' \<noteq> []"
    "get_matches ?w = Inr ?ms" "get_teams ?w = Inr ?teams"
    by (simp_all add: usable_token_def)
  have ids: "player_ids ?teams = [10, 12, 11, 13, 14]"
    by code_simp
  have caught: "\<forall>pid\<in>set (player_ids ?teams). \<forall>e. get_player ?w pid = Inl e \<longrightarrow> e = HTTPError"
    unfolding ids by simp
  have run: "main (Some ''secret'') None ?w [''stats? Falcons''] =
     ([Stdout ''Al'', Stdout ''Bob Lee'', Stdout ''1 0 +2''], Exited 0)"
    by code_simp
  have queries: "fst (handle_queries ?w ?teams ?ms [''stats? Falcons'']) = [Stdout ''1 0 +2'']"
    by code_simp
  from roster_output [OF h caught, of "[''stats? Falcons'']"] obtain names
    where out: "main (Some ''secret'') None ?w [''stats? Falcons''] =
        (map Stdout names @ fst (handle_queries ?w ?teams ?ms [''stats? Falcons'']),
         case snd (handle_queries ?w ?teams ?ms [''stats? Falcons'']) of
           None \<Rightarrow> Exited 0 | Some e \<Rightarrow> Uncaught e)"
      and props: "sorted names" "distinct names" "[] \<notin> set names"
    by blast
  from out have "map Stdout names @ [Stdout ''1 0 +2''] =
      [Stdout ''Al'', Stdout ''Bob Lee''] @ [Stdout ''1 0 +2'']"
    unfolding run queries by simp
  then have "map Stdout names = [Stdout ''Al'', Stdout ''Bob Lee'']"
    by simp
  then have "names = [''Al'', ''Bob Lee'']"
    by (auto simp: map_eq_Cons_conv)
  with props run show ?thesis by blast
qed











end
